theory Spec2Isabelle
  imports Main "HOL-Library.Char_ord" "HOL-Library.AList"
begin


section \<open>Python text primitives\<close>

text \<open>
  Python strings are sequences of code points; here a string is a \<^typ>\<open>char list\<close> and a
  character is a code point below 256 (ASCII and Latin-1). In that range the regular
  expression class \<open>\d\<close> is exactly the ASCII digits.
\<close>

datatype py_exn =
    TypeError string
  | ValueError string
  | PlaywrightTimeoutError string
  | PlaywrightError string
  | FileNotFoundError string
  | Exception string


text \<open>What \<open>except PlaywrightTimeoutError\<close> catches.\<close>

fun is_timeout :: "py_exn \<Rightarrow> bool" where
  "is_timeout (PlaywrightTimeoutError m) = True"
| "is_timeout _ = False"

definition dq :: char where
  "dq = CHR 0x22"

definition nl :: char where
  "nl = CHR 0x0A"

definition is_digit :: "char \<Rightarrow> bool" where
  "is_digit c = (CHR ''0'' \<le> c \<and> c \<le> CHR ''9'')"

definition digit_val :: "char \<Rightarrow> nat" where
  "digit_val c = of_char c - 48"

text \<open>\<open>int(s)\<close> on a string of decimal digits; any other text is a \<open>ValueError\<close>
  (\<open>None\<close>). Signs, blanks and underscores, which \<open>int\<close> also reads, never reach it here.\<close>

definition py_int :: "string \<Rightarrow> nat option" where
  "py_int s = (if s \<noteq> [] \<and> list_all is_digit s
               then Some (foldl (\<lambda>a c. 10 * a + digit_val c) 0 s) else None)"

text \<open>\<open>str(n)\<close> for a natural number.\<close>

fun py_str_nat :: "nat \<Rightarrow> string" where
  "py_str_nat n = (if n < 10 then [char_of (48 + n)]
                   else py_str_nat (n div 10) @ [char_of (48 + n mod 10)])"

declare py_str_nat.simps [simp del]

text \<open>The format \<open>f"{n:02d}"\<close>: decimal, padded with zeros to two places.\<close>

definition fmt_02d :: "nat \<Rightarrow> string" where
  "fmt_02d n = (let s = py_str_nat n in replicate (2 - length s) (CHR ''0'') @ s)"

fun join :: "string \<Rightarrow> string list \<Rightarrow> string" where
  "join sep [] = []"
| "join sep [x] = x"
| "join sep (x # y # ys) = x @ sep @ join sep (y # ys)"

subsection \<open>\<open>repr\<close> of a string\<close>

definition hex_digit :: "nat \<Rightarrow> char" where
  "hex_digit n = (if n < 10 then char_of (48 + n) else char_of (87 + n))"

definition is_printable :: "char \<Rightarrow> bool" where
  "is_printable c = (let n = (of_char c :: nat) in
     (32 \<le> n \<and> n < 127) \<or> (161 \<le> n \<and> n \<noteq> 173))"

definition repr_char :: "char \<Rightarrow> char \<Rightarrow> string" where
  "repr_char q c =
     (if c = CHR 0x5C then [CHR 0x5C, CHR 0x5C]
      else if c = q then [CHR 0x5C, q]
      else if c = nl then [CHR 0x5C, CHR ''n'']
      else if c = CHR 0x0D then [CHR 0x5C, CHR ''r'']
      else if c = CHR 0x09 then [CHR 0x5C, CHR ''t'']
      else if is_printable c then [c]
      else [CHR 0x5C, CHR ''x'', hex_digit (of_char c div 16), hex_digit (of_char c mod 16)])"

definition py_repr_str :: "string \<Rightarrow> string" where
  "py_repr_str s =
     (let q = (if CHR 0x27 \<in> set s \<and> dq \<notin> set s then dq else CHR 0x27)
      in [q] @ concat (map (repr_char q) s) @ [q])"

section \<open>The Google-form prefiller (\<open>rpa/browser_filler.py\<close>, \<open>rpa/types.py\<close>)\<close>

text \<open>\<open>FieldConfig\<close>: the value of a field is a string or a list of strings.\<close>

datatype field_value = VStr string | VList "string list"

record field_config =
  fc_entry_id :: "string option"
  fc_question_label :: "string option"
  fc_type :: string
  fc_value :: field_value

text \<open>\<open>str(val)\<close>.\<close>

fun py_str_value :: "field_value \<Rightarrow> string" where
  "py_str_value (VStr s) = s"
| "py_str_value (VList xs) = ''['' @ join '', '' (map py_repr_str xs) @ '']''"

subsection \<open>The two format checks\<close>

text \<open>
  The pieces of \<open>re.match(r"(\d{4})-(\d{2})-(\d{2})$", s)\<close> and of
  \<open>re.match(r"(\d{2}):(\d{2})$", s)\<close>: a run of exactly \<open>n\<close> digits, one given
  character, and \<open>$\<close>, which in Python holds at the end of the text and also just before
  a newline that ends the text.
\<close>

definition re_digits :: "nat \<Rightarrow> string \<Rightarrow> (string \<times> string) option" where
  "re_digits n s = (if n \<le> length s \<and> list_all is_digit (take n s)
                    then Some (take n s, drop n s) else None)"

fun re_char :: "char \<Rightarrow> string \<Rightarrow> string option" where
  "re_char c [] = None"
| "re_char c (x # xs) = (if x = c then Some xs else None)"

definition re_dollar :: "string \<Rightarrow> bool" where
  "re_dollar s = (s = [] \<or> s = [nl])"

definition re_date :: "string \<Rightarrow> (string \<times> string \<times> string) option" where
  "re_date s =
     (case re_digits 4 s of None \<Rightarrow> None | Some (y, s1) \<Rightarrow>
     (case re_char (CHR ''-'') s1 of None \<Rightarrow> None | Some s2 \<Rightarrow>
     (case re_digits 2 s2 of None \<Rightarrow> None | Some (mo, s3) \<Rightarrow>
     (case re_char (CHR ''-'') s3 of None \<Rightarrow> None | Some s4 \<Rightarrow>
     (case re_digits 2 s4 of None \<Rightarrow> None | Some (d, s5) \<Rightarrow>
      if re_dollar s5 then Some (y, mo, d) else None)))))"

definition re_time :: "string \<Rightarrow> (string \<times> string) option" where
  "re_time s =
     (case re_digits 2 s of None \<Rightarrow> None | Some (hh, s1) \<Rightarrow>
     (case re_char (CHR '':'') s1 of None \<Rightarrow> None | Some s2 \<Rightarrow>
     (case re_digits 2 s2 of None \<Rightarrow> None | Some (mm, s3) \<Rightarrow>
      if re_dollar s3 then Some (hh, mm) else None)))"

subsection \<open>The page and the commands sent to it\<close>

datatype command =
    LocatorFirstFill string string
  | PageFill string string
  | SelectOption string string
  | RoleScroll string string
  | RoleCheck string string

text \<open>
  The browser page, as far as \<open>prefill_form\<close> uses it: how many elements a selector
  matches, how many elements of a role carry a given accessible name (compared as
  \<open>^name$\<close>, ignoring case), and what a command does: the page after it and the
  exception it raised, if any. A run carries the page and the commands sent so far.
\<close>

record 'p browser_page =
  locator_count :: "'p \<Rightarrow> string \<Rightarrow> nat"
  role_count :: "'p \<Rightarrow> string \<Rightarrow> string \<Rightarrow> nat"
  exec :: "command \<Rightarrow> 'p \<Rightarrow> 'p \<times> py_exn option"

type_synonym 'p run = "'p \<times> command list"

text \<open>A command outside any \<open>try\<close>: its exception ends the run.\<close>

definition issue :: "'p browser_page \<Rightarrow> command \<Rightarrow> 'p run \<Rightarrow> py_exn + 'p run" where
  "issue pw c st =
     (case exec pw c (fst st) of
        (p', None) \<Rightarrow> Inr (p', snd st @ [c])
      | (p', Some e) \<Rightarrow> Inl e)"

text \<open>A command inside \<open>try: ... except Exception: pass\<close>: the flag tells whether it
  went through, so that the rest of the \<open>try\<close> body is skipped when it did not.\<close>

definition issue_quiet :: "'p browser_page \<Rightarrow> command \<Rightarrow> 'p run \<Rightarrow> 'p run \<times> bool" where
  "issue_quiet pw c st =
     (case exec pw c (fst st) of (p', r) \<Rightarrow> ((p', snd st @ [c]), r = None))"

definition part_selector :: "string \<Rightarrow> string \<Rightarrow> string" where
  "part_selector eid suf = ''[name='' @ [dq] @ ''entry.'' @ eid @ suf @ [dq] @ '']''"

text \<open>The loop \<open>for suf, v in (...)\<close> shared by the date and the time branch.\<close>

fun fill_parts :: "'p browser_page \<Rightarrow> string \<Rightarrow> (string \<times> string) list \<Rightarrow> 'p run
                   \<Rightarrow> py_exn + 'p run" where
  "fill_parts pw eid [] st = Inr st"
| "fill_parts pw eid ((suf, v) # rest) st =
     (let sel = part_selector eid suf in
      if locator_count pw (fst st) sel > 0 then
        (case issue pw (PageFill sel v) st of
           Inl e \<Rightarrow> Inl e
         | Inr st' \<Rightarrow> fill_parts pw eid rest st')
      else fill_parts pw eid rest st)"

text \<open>The tuples the two loops run over; \<open>int\<close> of a group that is not a number would
  raise before the first fill.\<close>

definition date_parts :: "string \<times> string \<times> string \<Rightarrow> py_exn + (string \<times> string) list" where
  "date_parts g =
     (case g of (y, mo, d) \<Rightarrow>
     (case py_int mo of None \<Rightarrow> Inl (ValueError mo) | Some m \<Rightarrow>
     (case py_int d of None \<Rightarrow> Inl (ValueError d) | Some dd \<Rightarrow>
      Inr [(''_year'', y), (''_month'', py_str_nat m), (''_day'', py_str_nat dd)])))"

definition time_parts :: "string \<times> string \<Rightarrow> py_exn + (string \<times> string) list" where
  "time_parts g =
     (case g of (hh, mm) \<Rightarrow>
     (case py_int hh of None \<Rightarrow> Inl (ValueError hh) | Some h \<Rightarrow>
     (case py_int mm of None \<Rightarrow> Inl (ValueError mm) | Some m \<Rightarrow>
      Inr [(''_hour'', py_str_nat h), (''_minute'', fmt_02d m)])))"

definition truthy_id :: "string option \<Rightarrow> bool" where
  "truthy_id e = (case e of None \<Rightarrow> False | Some s \<Rightarrow> s \<noteq> [])"

definition text_selector :: "string \<Rightarrow> string" where
  "text_selector eid =
     ''input[name='' @ [dq] @ ''entry.'' @ eid @ [dq] @ '']:not([type='' @ [dq] @ ''hidden''
       @ [dq] @ '']), textarea[name='' @ [dq] @ ''entry.'' @ eid @ [dq] @ '']''"

definition select_selector :: "string \<Rightarrow> string" where
  "select_selector eid = ''select[name='' @ [dq] @ ''entry.'' @ eid @ [dq] @ '']''"

text \<open>\<open>scroll_into_view_if_needed\<close> then \<open>check\<close> on the first element of a role and
  name, both inside one \<open>try\<close>.\<close>

definition check_role :: "'p browser_page \<Rightarrow> string \<Rightarrow> string \<Rightarrow> 'p run \<Rightarrow> 'p run" where
  "check_role pw role name st =
     (if role_count pw (fst st) role name > 0 then
        (case issue_quiet pw (RoleScroll role name) st of
           (st', ok) \<Rightarrow> if ok then fst (issue_quiet pw (RoleCheck role name) st') else st')
      else st)"

fun check_all :: "'p browser_page \<Rightarrow> string list \<Rightarrow> 'p run \<Rightarrow> 'p run" where
  "check_all pw [] st = st"
| "check_all pw (opt # opts) st = check_all pw opts (check_role pw ''checkbox'' opt st)"

text \<open>One turn of \<open>for f in config.get('fields', [])\<close>: the \<open>if\<close>/\<open>elif\<close> chain has no
  \<open>else\<close>, so a field of any other type is passed over.\<close>

definition prefill_field :: "'p browser_page \<Rightarrow> field_config \<Rightarrow> 'p run \<Rightarrow> py_exn + 'p run" where
  "prefill_field pw f st =
     (let t = fc_type f; eid = fc_entry_id f; val = fc_value f in
      if (t = ''text'' \<or> t = ''paragraph'') \<and> truthy_id eid then
        (let sel = text_selector (the eid) in
         if locator_count pw (fst st) sel > 0
         then Inr (fst (issue_quiet pw (LocatorFirstFill sel (py_str_value val)) st))
         else Inr st)
      else if t = ''date'' \<and> truthy_id eid then
        (case re_date (py_str_value val) of
           None \<Rightarrow> Inr st
         | Some g \<Rightarrow>
             (case date_parts g of Inl e \<Rightarrow> Inl e | Inr ps \<Rightarrow> fill_parts pw (the eid) ps st))
      else if t = ''time'' \<and> truthy_id eid then
        (case re_time (py_str_value val) of
           None \<Rightarrow> Inr st
         | Some g \<Rightarrow>
             (case time_parts g of Inl e \<Rightarrow> Inl e | Inr ps \<Rightarrow> fill_parts pw (the eid) ps st))
      else if t = ''dropdown'' \<and> truthy_id eid then
        (let sel = select_selector (the eid) in
         if locator_count pw (fst st) sel > 0
         then issue pw (SelectOption sel (py_str_value val)) st
         else Inr st)
      else if t = ''choice'' then Inr (check_role pw ''radio'' (py_str_value val) st)
      else if t = ''checkbox'' then
        Inr (check_all pw (case val of VList xs \<Rightarrow> xs | VStr s \<Rightarrow> [s]) st)
      else Inr st)"

fun prefill_form :: "'p browser_page \<Rightarrow> field_config list \<Rightarrow> 'p run \<Rightarrow> py_exn + 'p run" where
  "prefill_form pw [] st = Inr st"
| "prefill_form pw (f # fs) st =
     (case prefill_field pw f st of Inl e \<Rightarrow> Inl e | Inr st' \<Rightarrow> prefill_form pw fs st')"

text \<open>A page on which every selector matches one element and every command goes
  through; the page itself has no state.\<close>

definition plain_page :: "unit browser_page" where
  "plain_page = \<lparr>locator_count = (\<lambda>p sel. 1), role_count = (\<lambda>p role name. 1),
                  exec = (\<lambda>c p. (p, None))\<rparr>"

definition date_field :: "string \<Rightarrow> string \<Rightarrow> field_config" where
  "date_field eid v = \<lparr>fc_entry_id = Some eid, fc_question_label = None, fc_type = ''date'',
                        fc_value = VStr v\<rparr>"

definition time_field :: "string \<Rightarrow> string \<Rightarrow> field_config" where
  "time_field eid v = \<lparr>fc_entry_id = Some eid, fc_question_label = None, fc_type = ''time'',
                        fc_value = VStr v\<rparr>"

text \<open>What a two-digit group becomes under \<open>str(int(...))\<close>: the number without
  its leading zero. It is used to state what is entered, and is proved equal to the
  source's conversion below.\<close>

definition unpad :: "string \<Rightarrow> string" where
  "unpad s = (case s of [a, b] \<Rightarrow> if a = CHR ''0'' then [b] else [a, b] | _ \<Rightarrow> s)"

section \<open>The CSV-driven filler (\<open>main.py\<close>): XPath literals\<close>

definition sq :: char where
  "sq = CHR 0x27"

text \<open>\<open>s.split(c)\<close> for a separator of one character: never empty, one more part than
  there are separators.\<close>

fun split_on :: "char \<Rightarrow> string \<Rightarrow> string list" where
  "split_on c [] = [[]]"
| "split_on c (x # xs) =
     (if x = c then [] # split_on c xs
      else (case split_on c xs of [] \<Rightarrow> [[x]] | p # ps \<Rightarrow> (x # p) # ps))"

text \<open>The loop \<open>for i, p in enumerate(parts)\<close> of \<open>_xpath_literal\<close>: a part that is not
  empty gives a single-quoted token, and every part but the last is followed by the
  token \<open>"'"\<close>.\<close>

fun xpath_tokens :: "string list \<Rightarrow> string list" where
  "xpath_tokens [] = []"
| "xpath_tokens [p] = (if p \<noteq> [] then [[sq] @ p @ [sq]] else [])"
| "xpath_tokens (p # p' # ps) =
     (if p \<noteq> [] then [[sq] @ p @ [sq]] else []) @ [[dq, sq, dq]] @ xpath_tokens (p' # ps)"

definition xpath_literal :: "string \<Rightarrow> string" where
  "xpath_literal s =
     (if sq \<notin> set s then [sq] @ s @ [sq]
      else if dq \<notin> set s then [dq] @ s @ [dq]
      else ''concat('' @ join '', '' (xpath_tokens (split_on sq s)) @ '')'')"

subsection \<open>What an XPath processor reads\<close>

text \<open>
  The string expressions of XPath 1.0 that \<open>_xpath_literal\<close> can produce, as an XPath
  processor reads them: a literal is a quote, any characters but that quote, and the
  same quote again, and stands for the characters between; \<open>concat\<close> takes two or more
  arguments, separated by commas with optional white space, and stands for their
  concatenation. Text that is not of this form is not an expression (\<open>None\<close>).
  The arguments are scanned character by character.
\<close>

datatype scan_mode = ExpectArg | InLit char string | AfterArg

definition is_xml_space :: "char \<Rightarrow> bool" where
  "is_xml_space c = (c = CHR '' '' \<or> c = CHR 0x09 \<or> c = CHR 0x0A \<or> c = CHR 0x0D)"

fun scan_args :: "scan_mode \<Rightarrow> string list \<Rightarrow> string \<Rightarrow> string list option" where
  "scan_args m vs [] = None"
| "scan_args ExpectArg vs (c # cs) =
     (if is_xml_space c then scan_args ExpectArg vs cs
      else if c = sq \<or> c = dq then scan_args (InLit c []) vs cs
      else None)"
| "scan_args (InLit q acc) vs (c # cs) =
     (if c = q then scan_args AfterArg (vs @ [acc]) cs
      else scan_args (InLit q (acc @ [c])) vs cs)"
| "scan_args AfterArg vs (c # cs) =
     (if is_xml_space c then scan_args AfterArg vs cs
      else if c = CHR '','' then scan_args ExpectArg vs cs
      else if c = CHR '')'' then (if cs = [] then Some vs else None)
      else None)"

definition xpath_string_value :: "string \<Rightarrow> string option" where
  "xpath_string_value e =
     (case e of
        [] \<Rightarrow> None
      | q # r \<Rightarrow>
          if q = sq \<or> q = dq then
            (if r \<noteq> [] \<and> last r = q \<and> q \<notin> set (butlast r) then Some (butlast r) else None)
          else if take 7 e = ''concat('' then
            (case scan_args ExpectArg [] (drop 7 e) of
               None \<Rightarrow> None
             | Some vs \<Rightarrow> if 2 \<le> length vs then Some (concat vs) else None)
          else None)"

text \<open>The tokens of \<open>_xpath_literal\<close> seen as pieces, for the proofs: what each is
  written as and what it stands for.\<close>

datatype piece = Quoted string | Apostrophe

fun render :: "piece \<Rightarrow> string" where
  "render (Quoted p) = [sq] @ p @ [sq]"
| "render Apostrophe = [dq, sq, dq]"

fun piece_value :: "piece \<Rightarrow> string" where
  "piece_value (Quoted p) = p"
| "piece_value Apostrophe = [sq]"

fun pieces :: "string list \<Rightarrow> piece list" where
  "pieces [] = []"
| "pieces [p] = (if p \<noteq> [] then [Quoted p] else [])"
| "pieces (p # p' # ps) = (if p \<noteq> [] then [Quoted p] else []) @ [Apostrophe] @ pieces (p' # ps)"

section \<open>The CSV-driven filler (\<open>main.py\<close>): reading a row\<close>

text \<open>\<open>str.isspace\<close>, \<open>str.strip\<close>, \<open>str.lower\<close> and \<open>str.endswith\<close> on code points
  below 256.\<close>

definition is_space :: "char \<Rightarrow> bool" where
  "is_space c = (let n = (of_char c :: nat) in
     (9 \<le> n \<and> n \<le> 13) \<or> (28 \<le> n \<and> n \<le> 32) \<or> n = 133 \<or> n = 160)"

definition py_strip :: "string \<Rightarrow> string" where
  "py_strip s = rev (dropWhile is_space (rev (dropWhile is_space s)))"

definition lower_char :: "char \<Rightarrow> char" where
  "lower_char c = (let n = (of_char c :: nat) in
     if (65 \<le> n \<and> n \<le> 90) \<or> (192 \<le> n \<and> n \<le> 222 \<and> n \<noteq> 215) then char_of (n + 32) else c)"

definition py_lower :: "string \<Rightarrow> string" where
  "py_lower s = map lower_char s"






subsection \<open>The reading of a row, cell by cell\<close>








text \<open>A dictionary filled from a list of pairs, in order.\<close>

definition dict_of :: "('k \<times> 'v) list \<Rightarrow> ('k \<times> 'v) list" where
  "dict_of ps = fold (\<lambda>p d. AList.update (fst p) (snd p) d) ps []"


section \<open>The fallback mapping (\<open>rpa/form_parser_gemini.py\<close>)\<close>

text \<open>
  The profile \<open>basic\<close> is what \<open>json.load\<close> returns: a dictionary from strings to any
  JSON value. Numbers are modelled by the integers; a dictionary is the list of its
  items.
\<close>

datatype pyval =
    PNone
  | PBool bool
  | PInt int
  | PStr string
  | PList "pyval list"
  | PDict "(string \<times> pyval) list"

type_synonym py_dict = "(string \<times> pyval) list"

text \<open>Truth value of an object, as \<open>if x\<close>, \<open>x or y\<close> and \<open>not x\<close> read it.\<close>

fun truthy :: "pyval \<Rightarrow> bool" where
  "truthy PNone = False"
| "truthy (PBool b) = b"
| "truthy (PInt i) = (i \<noteq> 0)"
| "truthy (PStr s) = (s \<noteq> [])"
| "truthy (PList xs) = (xs \<noteq> [])"
| "truthy (PDict kvs) = (kvs \<noteq> [])"

definition py_or :: "pyval \<Rightarrow> pyval \<Rightarrow> pyval" where
  "py_or a b = (if truthy a then a else b)"

text \<open>\<open>d.get(k)\<close>.\<close>

definition dict_get :: "py_dict \<Rightarrow> string \<Rightarrow> pyval" where
  "dict_get d k = (case map_of d k of None \<Rightarrow> PNone | Some v \<Rightarrow> v)"

definition py_str_int :: "int \<Rightarrow> string" where
  "py_str_int i = (if i < 0 then ''-'' @ py_str_nat (nat (- i)) else py_str_nat (nat i))"

text \<open>\<open>repr(x)\<close> and \<open>str(x)\<close>.\<close>

fun py_repr :: "pyval \<Rightarrow> string" where
  "py_repr PNone = ''None''"
| "py_repr (PBool b) = (if b then ''True'' else ''False'')"
| "py_repr (PInt i) = py_str_int i"
| "py_repr (PStr s) = py_repr_str s"
| "py_repr (PList xs) = ''['' @ join '', '' (map py_repr xs) @ '']''"
| "py_repr (PDict kvs) =
     ''{'' @ join '', '' (map (\<lambda>kv. py_repr_str (fst kv) @ '': '' @ py_repr (snd kv)) kvs) @ ''}''"

definition py_str :: "pyval \<Rightarrow> string" where
  "py_str x = (case x of PStr s \<Rightarrow> s | _ \<Rightarrow> py_repr x)"

text \<open>\<open>a + b\<close>; booleans count as the integers 0 and 1.\<close>

fun as_int :: "pyval \<Rightarrow> int option" where
  "as_int (PInt i) = Some i"
| "as_int (PBool b) = Some (if b then 1 else 0)"
| "as_int _ = None"

definition py_add :: "pyval \<Rightarrow> pyval \<Rightarrow> py_exn + pyval" where
  "py_add a b =
     (case (a, b) of
        (PStr x, PStr y) \<Rightarrow> Inr (PStr (x @ y))
      | (PList x, PList y) \<Rightarrow> Inr (PList (x @ y))
      | _ \<Rightarrow> (case (as_int a, as_int b) of
                 (Some i, Some j) \<Rightarrow> Inr (PInt (i + j))
               | _ \<Rightarrow> Inl (TypeError ''unsupported operand type(s) for +'')))"

text \<open>\<open>sub in s\<close> for two strings.\<close>

fun py_contains :: "string \<Rightarrow> string \<Rightarrow> bool" where
  "py_contains sub [] = (sub = [])"
| "py_contains sub (x # xs) = (take (length sub) (x # xs) = sub \<or> py_contains sub xs)"

text \<open>\<open>for o in v\<close>: the elements of a list, the keys of a dictionary, the characters
  of a string; any other object is not iterable.\<close>

fun py_iter :: "pyval \<Rightarrow> py_exn + pyval list" where
  "py_iter (PList xs) = Inr xs"
| "py_iter (PDict kvs) = Inr (map (\<lambda>kv. PStr (fst kv)) kvs)"
| "py_iter (PStr s) = Inr (map (\<lambda>c. PStr [c]) s)"
| "py_iter PNone = Inl (TypeError ''NoneType object is not iterable'')"
| "py_iter (PBool b) = Inl (TypeError ''bool object is not iterable'')"
| "py_iter (PInt i) = Inl (TypeError ''int object is not iterable'')"

subsection \<open>\<open>_guess_value\<close>\<close>

text \<open>The local function \<open>pick(keys, default)\<close>.\<close>

fun pick :: "py_dict \<Rightarrow> string list \<Rightarrow> pyval \<Rightarrow> pyval" where
  "pick basic [] dflt = dflt"
| "pick basic (k # ks) dflt =
     (case map_of basic k of
        None \<Rightarrow> pick basic ks dflt
      | Some x \<Rightarrow> if x \<noteq> PNone \<and> x \<noteq> PStr [] then x else pick basic ks dflt)"

text \<open>The comparison \<open>str(cand).strip().lower() == str(o).strip().lower()\<close>.\<close>

definition same_option :: "string \<Rightarrow> string \<Rightarrow> bool" where
  "same_option a b = (py_lower (py_strip a) = py_lower (py_strip b))"

text \<open>\<open>for o in options: if ... == v...: return o\<close>, then the first option or \<open>''\<close>.\<close>

fun first_match :: "string list \<Rightarrow> string \<Rightarrow> string option" where
  "first_match [] v = None"
| "first_match (opt # opts) v = (if same_option opt v then Some opt else first_match opts v)"

definition first_or_empty :: "string list \<Rightarrow> string" where
  "first_or_empty options = (case options of [] \<Rightarrow> [] | x # _ \<Rightarrow> x)"

text \<open>The two nested loops of the checkbox branch.\<close>

definition keep_matches :: "pyval list \<Rightarrow> string list \<Rightarrow> string list" where
  "keep_matches vs options =
     concat (map (\<lambda>v. filter (\<lambda>cand. same_option cand (py_str v)) options) vs)"

definition guess_text :: "string \<Rightarrow> py_dict \<Rightarrow> py_exn + pyval" where
  "guess_text l basic =
     (if py_contains ''email'' l then Inr (pick basic [''email'', ''mail''] (PStr []))
      else if py_contains ''phone'' l \<or> py_contains ''mobile'' l then
        Inr (pick basic [''phone'', ''phone_number'', ''mobile''] (PStr []))
      else if py_contains ''first name'' l then
        Inr (pick basic [''first_name'', ''firstname'', ''given_name'', ''name_first''] (PStr []))
      else if py_contains ''last name'' l \<or> py_contains ''surname'' l then
        Inr (pick basic [''last_name'', ''lastname'', ''family_name'', ''name_last''] (PStr []))
      else if py_contains ''name'' l then
        (let full = pick basic [''name'', ''full_name''] (PStr []) in
         if truthy full then Inr full
         else
           (let fn = pick basic [''first_name'', ''firstname''] (PStr []);
                ln = pick basic [''last_name'', ''lastname''] (PStr [])
            in case py_add fn (PStr '' '') of
                 Inl e \<Rightarrow> Inl e
               | Inr a \<Rightarrow>
                   (case py_add a ln of
                      Inl e \<Rightarrow> Inl e
                    | Inr b \<Rightarrow> Inr (PStr (py_strip (py_str b))))))
      else if py_contains ''company'' l \<or> py_contains ''organization'' l
              \<or> py_contains ''organisation'' l then
        Inr (pick basic [''company'', ''organization'', ''organisation'', ''employer''] (PStr []))
      else if py_contains ''title'' l \<or> py_contains ''role'' l \<or> py_contains ''position'' l then
        Inr (pick basic [''title'', ''role'', ''position'', ''job_title''] (PStr []))
      else if py_contains ''city'' l then Inr (pick basic [''city''] (PStr []))
      else if py_contains ''state'' l \<or> py_contains ''province'' l then
        Inr (pick basic [''state'', ''province''] (PStr []))
      else if py_contains ''country'' l then Inr (pick basic [''country''] (PStr []))
      else if py_contains ''zip'' l \<or> py_contains ''postal'' l then
        Inr (pick basic [''zip'', ''postal'', ''postal_code'', ''zip_code''] (PStr []))
      else if py_contains ''address'' l then Inr (pick basic [''address'', ''street''] (PStr []))
      else if py_contains ''website'' l \<or> py_contains ''url'' l then
        Inr (pick basic [''website'', ''url''] (PStr []))
      else if py_contains ''message'' l \<or> py_contains ''comments'' l \<or> py_contains ''notes'' l then
        Inr (pick basic [''message'', ''notes'', ''comment''] (PStr []))
      else Inr (PStr []))"

definition guess_value :: "string \<Rightarrow> string \<Rightarrow> string list \<Rightarrow> py_dict \<Rightarrow> py_exn + pyval" where
  "guess_value label ftype options basic =
     (let l = py_lower label in
      if ftype = ''text'' \<or> ftype = ''paragraph'' then guess_text l basic
      else if ftype = ''date'' then
        (let v = pick basic [''date'', ''dob'', ''birthday''] (PStr []) in
         Inr (if re_date (py_str (py_or v (PStr []))) \<noteq> None then v else PStr []))
      else if ftype = ''time'' then
        (let v = pick basic [''time''] (PStr []) in
         Inr (if re_time (py_str (py_or v (PStr []))) \<noteq> None then v else PStr []))
      else if ftype = ''dropdown'' \<or> ftype = ''choice'' then
        (let v = pick basic [''choice'', ''selection'', ''option'', ''answer'', ''value''] (PStr []) in
         case (case v of PStr s \<Rightarrow> if options \<noteq> [] then first_match options s else None
                       | _ \<Rightarrow> None) of
           Some opt \<Rightarrow> Inr (PStr opt)
         | None \<Rightarrow> Inr (PStr (first_or_empty options)))
      else if ftype = ''checkbox'' then
        (let v = py_or (dict_get basic ''selections'')
                   (py_or (dict_get basic ''options'')
                      (py_or (dict_get basic ''answers'') (PList [])));
             v' = (case v of PStr s \<Rightarrow> PList [v] | _ \<Rightarrow> v)
         in case py_iter (py_or v' (PList [])) of
              Inl e \<Rightarrow> Inl e
            | Inr vs \<Rightarrow> Inr (PList (map PStr (keep_matches vs options))))
      else Inr (PStr []))"

subsection \<open>\<open>_fallback_config\<close>\<close>

text \<open>A field descriptor, as \<open>summarize_form_fields\<close> makes it, and an entry of the
  mapping.\<close>

record descriptor =
  d_entry_id :: "string option"
  d_question_label :: string
  d_type :: string
  d_options :: "string list"

record mapped_field =
  m_entry_id :: "string option"
  m_question_label :: string
  m_type :: string
  m_value :: pyval
  m_option_hints :: "string list option"

record form_config =
  cfg_form_url :: string
  cfg_fields :: "mapped_field list"

definition is_list :: "pyval \<Rightarrow> bool" where
  "is_list v = (case v of PList _ \<Rightarrow> True | _ \<Rightarrow> False)"

definition fallback_field :: "descriptor \<Rightarrow> py_dict \<Rightarrow> py_exn + mapped_field" where
  "fallback_field f basic =
     (let eid = d_entry_id f; ql = d_question_label f; ftype = d_type f; options = d_options f in
      case guess_value ql ftype options basic of
        Inl e \<Rightarrow> Inl e
      | Inr val \<Rightarrow>
          (let val' = (if ftype = ''checkbox'' \<and> \<not> is_list val
                       then (if truthy val then PList [val] else PList [])
                       else val)
           in Inr \<lparr>m_entry_id = eid, m_question_label = ql, m_type = ftype, m_value = val',
                    m_option_hints = (if options \<noteq> [] then Some options else None)\<rparr>))"

fun fallback_fields :: "descriptor list \<Rightarrow> py_dict \<Rightarrow> mapped_field list
                        \<Rightarrow> py_exn + mapped_field list" where
  "fallback_fields [] basic acc = Inr acc"
| "fallback_fields (f # fs) basic acc =
     (case fallback_field f basic of
        Inl e \<Rightarrow> Inl e
      | Inr m \<Rightarrow> fallback_fields fs basic (acc @ [m]))"

definition fallback_config :: "string \<Rightarrow> descriptor list \<Rightarrow> py_dict \<Rightarrow> py_exn + form_config" where
  "fallback_config url summary basic =
     (case fallback_fields summary basic [] of
        Inl e \<Rightarrow> Inl e
      | Inr fs \<Rightarrow> Inr \<lparr>cfg_form_url = url, cfg_fields = fs\<rparr>)"

subsection \<open>\<open>_extract_json_text\<close>\<close>

text \<open>The first occurrence of a text inside another: what stands before it and what
  follows it.\<close>

fun split_at_sub :: "string \<Rightarrow> string \<Rightarrow> (string \<times> string) option" where
  "split_at_sub sub [] = (if sub = [] then Some ([], []) else None)"
| "split_at_sub sub (x # xs) =
     (if take (length sub) (x # xs) = sub then Some ([], drop (length sub) (x # xs))
      else (case split_at_sub sub xs of
              None \<Rightarrow> None
            | Some (before, after) \<Rightarrow> Some (x # before, after)))"

definition backticks :: string where
  "backticks = [CHR 0x60, CHR 0x60, CHR 0x60]"

text \<open>
  The search for a code fence: three backquotes, \<open>json\<close> in any case if it is there,
  white space, then the shortest text up to the next three backquotes, which is the
  group.
\<close>

definition fence_group :: "string \<Rightarrow> string option" where
  "fence_group s =
     (case split_at_sub backticks s of
        None \<Rightarrow> None
      | Some (before, r) \<Rightarrow>
          (let r' = (if py_lower (take 4 r) = ''json'' then drop 4 r else r);
               r'' = dropWhile is_space r'
           in case split_at_sub backticks r'' of
                None \<Rightarrow> None
              | Some (g, after) \<Rightarrow> Some g))"

text \<open>
  The search for \<open>\{[\s\S]*\}\s*$\<close> in a stripped text: it succeeds when the text has an
  opening brace and ends with a closing one, and matches from the first opening brace
  to the end. The last attempt cuts from the first opening brace to the last closing
  one.
\<close>

definition extract_json_text :: "string \<Rightarrow> py_exn + string" where
  "extract_json_text txt =
     (if txt = [] then Inl (ValueError ''Empty response text'')
      else
        (let s = py_strip txt;
             fenced = (case fence_group s of
                         None \<Rightarrow> None
                       | Some g \<Rightarrow> if py_strip g \<noteq> [] then Some (py_strip g) else None);
             from_brace = dropWhile (\<lambda>c. c \<noteq> CHR ''{'') s
         in case fenced of
              Some candidate \<Rightarrow> Inr candidate
            | None \<Rightarrow>
                if from_brace \<noteq> [] \<and> last s = CHR ''}'' then Inr from_brace
                else if from_brace \<noteq> [] \<and> CHR ''}'' \<in> set (tl from_brace)
                then Inr (rev (dropWhile (\<lambda>c. c \<noteq> CHR ''}'') (rev from_brace)))
                else Inl (ValueError ''No JSON object found in model output'')))"

subsection \<open>\<open>call_gemini\<close>\<close>

text \<open>
  What \<open>call_gemini\<close> reads of the model's response: the attribute \<open>text\<close> (\<open>None\<close>
  when it is missing) and, for every candidate, the \<open>text\<close> of each of its parts;
  \<open>None\<close> for the candidates when walking through them raises.
\<close>

record gen_response =
  resp_text :: "string option"
  resp_candidates :: "string option list list option"

text \<open>
  The surroundings of the call: whether the module found an API key, the guidance read
  from the prompt file (empty when there is no file), the model, which is sent the
  prompt made of the guidance, the URL, the field descriptors and the profile, and
  \<open>json.loads\<close>.
\<close>

record gemini_env =
  api_key_set :: bool
  prompt_guidance :: "py_exn + string"
  generate :: "string \<times> string \<times> descriptor list \<times> py_dict \<Rightarrow> py_exn + gen_response"
  json_loads :: "string \<Rightarrow> py_exn + pyval"

datatype mapping = ModelData py_dict | Fallback form_config

definition use_fallback :: "string \<Rightarrow> descriptor list \<Rightarrow> py_dict \<Rightarrow> py_exn + mapping" where
  "use_fallback url summary basic =
     (case fallback_config url summary basic of Inl e \<Rightarrow> Inl e | Inr c \<Rightarrow> Inr (Fallback c))"

definition response_text :: "gen_response \<Rightarrow> string" where
  "response_text resp =
     (case resp_text resp of
        Some t \<Rightarrow> if t \<noteq> [] then t else
          (case resp_candidates resp of
             None \<Rightarrow> []
           | Some cs \<Rightarrow> join [nl] (map the (filter (\<lambda>t. t \<noteq> None \<and> t \<noteq> Some []) (concat cs))))
      | None \<Rightarrow>
          (case resp_candidates resp of
             None \<Rightarrow> []
           | Some cs \<Rightarrow> join [nl] (map the (filter (\<lambda>t. t \<noteq> None \<and> t \<noteq> Some []) (concat cs)))))"

definition call_gemini :: "gemini_env \<Rightarrow> string \<Rightarrow> descriptor list \<Rightarrow> py_dict
                           \<Rightarrow> py_exn + mapping" where
  "call_gemini env url summary basic =
     (case prompt_guidance env of
        Inl e \<Rightarrow> Inl e
      | Inr base_guidance \<Rightarrow>
          if \<not> api_key_set env then use_fallback url summary basic
          else
            (case generate env (base_guidance, url, summary, basic) of
               Inl e \<Rightarrow> use_fallback url summary basic
             | Inr resp \<Rightarrow>
                 (case extract_json_text (response_text resp) of
                    Inl e \<Rightarrow> use_fallback url summary basic
                  | Inr jtxt \<Rightarrow>
                      (case json_loads env jtxt of
                         Inl e \<Rightarrow> use_fallback url summary basic
                       | Inr data \<Rightarrow>
                           (case data of
                              PDict d \<Rightarrow>
                                if is_list (dict_get d ''fields'') then Inr (ModelData d)
                                else use_fallback url summary basic
                            | _ \<Rightarrow> use_fallback url summary basic)))))"

text \<open>No API key, and a prompt file that reads without error.\<close>

definition no_key_env :: gemini_env where
  "no_key_env = \<lparr>api_key_set = False, prompt_guidance = Inr [],
                  generate = (\<lambda>p. Inl (Exception ''no network'')),
                  json_loads = (\<lambda>s. Inl (ValueError ''not JSON''))\<rparr>"

definition checkbox_descriptor :: descriptor where
  "checkbox_descriptor = \<lparr>d_entry_id = Some ''1'', d_question_label = ''Pick'',
                            d_type = ''checkbox'', d_options = [''A'', ''B'']\<rparr>"

definition name_descriptor :: descriptor where
  "name_descriptor = \<lparr>d_entry_id = Some ''2'', d_question_label = ''Full name'',
                        d_type = ''text'', d_options = []\<rparr>"

text \<open>The hint of the checkbox branch.\<close>

definition checkbox_hint :: "py_dict \<Rightarrow> pyval" where
  "checkbox_hint basic =
     py_or (dict_get basic ''selections'')
       (py_or (dict_get basic ''options'') (py_or (dict_get basic ''answers'') (PList [])))"

section \<open>The Airtable filler (\<open>form_filler/filler.py\<close>, \<open>form_filler/airtable.py\<close>)\<close>

text \<open>
  The Playwright page as the filler uses it. A locator is named by how the code builds
  it. A query (\<open>count\<close>, the tag name, \<open>input_value\<close>, the URL) reads the page and
  may raise; a command changes the page and may raise. The file system answers for
  \<open>Path(...).resolve()\<close> and \<open>exists()\<close>. A run carries the page and the commands
  sent so far.
\<close>

datatype locator =
    XPathFirst string
  | Css string
  | TextPatternFirst string
  | ByLabel string
  | ByLabelFirst string
  | ByLabelFileInput string
  | InputsWithLabelFirst string

datatype pw_command =
    Fill locator string
  | Click locator
  | Check locator
  | Uncheck locator
  | SetInputFiles locator string
  | KeyPress string
  | InsertText string
  | WaitForTimeout nat
  | WaitFor locator int
  | WaitForSelector string int

record 'p pw_page =
  pw_count :: "'p \<Rightarrow> locator \<Rightarrow> py_exn + nat"
  pw_tag_name :: "'p \<Rightarrow> locator \<Rightarrow> py_exn + string"
  pw_input_value :: "'p \<Rightarrow> locator \<Rightarrow> py_exn + string"
  pw_url :: "'p \<Rightarrow> string"
  pw_exec :: "pw_command \<Rightarrow> 'p \<Rightarrow> 'p \<times> py_exn option"
  path_resolve :: "string \<Rightarrow> string"
  path_exists :: "string \<Rightarrow> bool"

type_synonym 'p pw_state = "'p \<times> pw_command list"

text \<open>The outcome of a step: the exception it raised, if any, and the run after it.\<close>

type_synonym 'p outcome = "py_exn option \<times> 'p pw_state"

definition run_cmd :: "'p pw_page \<Rightarrow> pw_command \<Rightarrow> 'p pw_state \<Rightarrow> 'p outcome" where
  "run_cmd pg c st = (case pw_exec pg c (fst st) of (p', r) \<Rightarrow> (r, (p', snd st @ [c])))"


subsection \<open>\<open>_fill_text_field\<close>\<close>




subsection \<open>The helpers of \<open>airtable.py\<close>\<close>









subsection \<open>\<open>fill_value\<close>\<close>





subsection \<open>\<open>wait_for_success\<close>\<close>

record wait_config =
  success_selector :: "string option"
  success_url_contains :: "string option"

definition success_patterns :: "string list" where
  "success_patterns = [''thank you'', ''thanks'', ''submitted'', ''response'', ''success'',
                       ''form submitted'', ''thank you for'']"

text \<open>The loop over the patterns: \<open>True\<close> when one was found and waited for, which
  returns from \<open>wait_for_success\<close>; a timeout moves on to the next pattern, any other
  exception leaves the function.\<close>

fun scan_patterns :: "'p pw_page \<Rightarrow> int \<Rightarrow> string list \<Rightarrow> 'p pw_state
                      \<Rightarrow> (py_exn + bool) \<times> 'p pw_state" where
  "scan_patterns pg timeout [] st = (Inr False, st)"
| "scan_patterns pg timeout (pattern # rest) st =
     (let loc = TextPatternFirst (''text=/'' @ pattern @ ''/i'') in
      case pw_count pg (fst st) loc of
        Inl e \<Rightarrow> if is_timeout e then scan_patterns pg timeout rest st else (Inl e, st)
      | Inr n \<Rightarrow>
          if n > 0 then
            (case run_cmd pg (WaitFor loc (timeout div int (length success_patterns))) st of
               (None, st') \<Rightarrow> (Inr True, st')
             | (Some e, st') \<Rightarrow>
                 if is_timeout e then scan_patterns pg timeout rest st' else (Inl e, st'))
          else scan_patterns pg timeout rest st)"

definition first_name_xpath :: string where
  "first_name_xpath =
     ''//label[normalize-space()='' @ [sq] @ ''First Name'' @ [sq] @ '']/following::input[1]''"

definition submit_css :: string where
  "submit_css = ''button[type='' @ [sq] @ ''submit'' @ [sq] @ ''], button:has-text(''
                  @ [sq] @ ''Submit'' @ [sq] @ '')''"

text \<open>The last \<open>try\<close>: the message printed when one of the three signs is seen; every
  exception inside it is dropped.\<close>

definition fallback_checks :: "'p pw_page \<Rightarrow> 'p pw_state \<Rightarrow> string option \<times> 'p pw_state" where
  "fallback_checks pg st =
     (case run_cmd pg (WaitForTimeout 3000) st of
        (Some e, st') \<Rightarrow> (None, st')
      | (None, st') \<Rightarrow>
          (case pw_count pg (fst st') (Css ''input, textarea'') of
             Inl e \<Rightarrow> (None, st')
           | Inr form_fields \<Rightarrow>
               if form_fields = 0
               then (Some ''Form fields no longer present - assuming successful submission'', st')
               else
                 (case pw_count pg (fst st') (Css submit_css) of
                    Inl e \<Rightarrow> (None, st')
                  | Inr submit_buttons \<Rightarrow>
                      if submit_buttons = 0
                      then (Some ''Submit button no longer present - assuming successful submission'',
                            st')
                      else
                        (case pw_count pg (fst st') (XPathFirst first_name_xpath) of
                           Inl e \<Rightarrow> (None, st')
                         | Inr n \<Rightarrow>
                             if n > 0 then
                               (case pw_input_value pg (fst st') (XPathFirst first_name_xpath) of
                                  Inl e \<Rightarrow> (None, st')
                                | Inr first_name_value \<Rightarrow>
                                    if first_name_value = []
                                    then (Some ''Form fields appear to be cleared - assuming successful submission'',
                                          st')
                                    else (None, st'))
                             else (None, st')))))"

definition unknown_warning :: "string list" where
  "unknown_warning =
     [''Warning: Could not detect clear success confirmation, but form was filled and submitted'',
      ''This is common with Airtable forms - submission likely successful'']"

text \<open>What \<open>wait_for_success\<close> gives: an exception, or the lines it printed before it
  returned.\<close>

definition wait_for_success :: "'p pw_page \<Rightarrow> wait_config \<Rightarrow> int \<Rightarrow> 'p pw_state
                                \<Rightarrow> (py_exn + string list) \<times> 'p pw_state" where
  "wait_for_success pg cfg timeout st =
     (case (if truthy_id (success_selector cfg) then
              (case run_cmd pg (WaitForSelector (the (success_selector cfg)) timeout) st of
                 (None, st') \<Rightarrow> (Some (Inr []), st')
               | (Some e, st') \<Rightarrow> if is_timeout e then (None, st') else (Some (Inl e), st'))
            else (None, st)) of
        (Some r, st1) \<Rightarrow> (r, st1)
      | (None, st1) \<Rightarrow>
          if truthy_id (success_url_contains cfg) then
            (let current_url = pw_url pg (fst st1) in
             if py_contains (the (success_url_contains cfg)) current_url then (Inr [], st1)
             else (Inl (PlaywrightTimeoutError
                          (''Expected URL to contain '' @ [sq] @ the (success_url_contains cfg)
                             @ [sq] @ '', got: '' @ current_url)), st1))
          else
            (case scan_patterns pg timeout success_patterns st1 of
               (Inl e, st2) \<Rightarrow> (Inl e, st2)
             | (Inr True, st2) \<Rightarrow> (Inr [], st2)
             | (Inr False, st2) \<Rightarrow>
                 (case fallback_checks pg st2 of
                    (Some line, st3) \<Rightarrow> (Inr [line], st3)
                  | (None, st3) \<Rightarrow> (Inr unknown_warning, st3))))"

text \<open>
  A page on which nothing signals success: no selector ever appears, no affirmative
  text is there, the form with its inputs and its submit button is still there, and
  the first-name field still holds its value.
\<close>

definition silent_page :: "unit pw_page" where
  "silent_page =
     \<lparr>pw_count = (\<lambda>p loc. case loc of TextPatternFirst t \<Rightarrow> Inr 0 | _ \<Rightarrow> Inr 1),
      pw_tag_name = (\<lambda>p loc. Inr ''input''),
      pw_input_value = (\<lambda>p loc. Inr ''Ann''),
      pw_url = (\<lambda>p. ''https://airtable.com/form''),
      pw_exec = (\<lambda>c p. case c of
                    WaitForSelector sel t \<Rightarrow> (p, Some (PlaywrightTimeoutError ''Timeout exceeded''))
                  | _ \<Rightarrow> (p, None)),
      path_resolve = (\<lambda>f. f),
      path_exists = (\<lambda>f. True)\<rparr>"

text \<open>The same page after the browser was closed: counting the elements fails with an
  error that is no timeout.\<close>

definition closed_page :: "unit pw_page" where
  "closed_page = silent_page\<lparr>pw_count := (\<lambda>p loc. Inl (PlaywrightError ''Target closed''))\<rparr>"

section \<open>The CSV-driven filler (\<open>main.py\<close>): locating and filling\<close>

text \<open>
  The Selenium driver as \<open>main.py\<close> uses it: the elements an XPath finds in the page,
  in document order, the elements it finds below a given element, the attributes of an
  element, and the commands; \<open>find_element\<close> is the first element found, and
  \<open>NoSuchElementException\<close> when there is none. A run carries the page and the
  commands sent so far.
\<close>

datatype 'e wd_command = Clear 'e | SendKeys 'e string | ClickEl 'e

record ('p, 'e) webdriver =
  find_elements :: "'p \<Rightarrow> string \<Rightarrow> 'e list"
  find_within :: "'p \<Rightarrow> 'e \<Rightarrow> string \<Rightarrow> 'e list"
  get_attribute :: "'p \<Rightarrow> 'e \<Rightarrow> string \<Rightarrow> string option"
  wd_exec :: "'e wd_command \<Rightarrow> 'p \<Rightarrow> 'p \<times> py_exn option"

type_synonym ('p, 'e) wd_state = "'p \<times> 'e wd_command list"

definition wd_run :: "('p, 'e) webdriver \<Rightarrow> 'e wd_command \<Rightarrow> ('p, 'e) wd_state
                      \<Rightarrow> py_exn option \<times> ('p, 'e) wd_state" where
  "wd_run drv c st = (case wd_exec drv c (fst st) of (p', r) \<Rightarrow> (r, (p', snd st @ [c])))"

definition find_element :: "('p, 'e) webdriver \<Rightarrow> 'p \<Rightarrow> string \<Rightarrow> 'e option" where
  "find_element drv p xp = (case find_elements drv p xp of [] \<Rightarrow> None | e # _ \<Rightarrow> Some e)"

definition candidate_label_variants :: "string \<Rightarrow> string list" where
  "candidate_label_variants label =
     (let base = py_strip label
      in [base, base @ '' (Required)'', base @ '' *'', base @ ''*''])"

definition container_xpath :: "string \<Rightarrow> string" where
  "container_xpath label =
     ''//div[@role='' @ [sq] @ ''listitem'' @ [sq] @ '' and .//*[normalize-space()=''
       @ xpath_literal label @ '']]''"

text \<open>The loop \<open>for c in containers\<close> of \<open>_find_in_question_container\<close>.\<close>

fun first_within :: "('p, 'e) webdriver \<Rightarrow> 'p \<Rightarrow> 'e list \<Rightarrow> string \<Rightarrow> 'e option" where
  "first_within drv p [] inner_xpath = None"
| "first_within drv p (c # cs) inner_xpath =
     (case find_within drv p c inner_xpath of
        [] \<Rightarrow> first_within drv p cs inner_xpath
      | el # _ \<Rightarrow> Some el)"

definition find_in_question_container :: "('p, 'e) webdriver \<Rightarrow> 'p \<Rightarrow> string \<Rightarrow> string
                                          \<Rightarrow> 'e option" where
  "find_in_question_container drv p label inner_xpath =
     first_within drv p (find_elements drv p (container_xpath label)) inner_xpath"

subsection \<open>\<open>fill_text_field\<close>\<close>

definition text_locators :: "string \<Rightarrow> string list" where
  "text_locators v =
     (let vq = xpath_literal v
      in [''//input[@aria-label='' @ vq @ '']'',
          ''//textarea[@aria-label='' @ vq @ '']'',
          ''//input[contains(@aria-label, '' @ vq @ '')]'',
          ''//textarea[contains(@aria-label, '' @ vq @ '')]''])"

text \<open>\<open>el.clear()\<close> inside its own \<open>try\<close>, then \<open>el.send_keys(value)\<close>, then
  \<open>return True\<close>.\<close>

definition clear_and_type :: "('p, 'e) webdriver \<Rightarrow> 'e \<Rightarrow> string \<Rightarrow> ('p, 'e) wd_state
                              \<Rightarrow> (py_exn + bool) \<times> ('p, 'e) wd_state" where
  "clear_and_type drv el v st =
     (case wd_run drv (Clear el) st of
        (r, st') \<Rightarrow>
          (case wd_run drv (SendKeys el v) st' of
             (None, st'') \<Rightarrow> (Inr True, st'')
           | (Some e, st'') \<Rightarrow> (Inl e, st'')))"

fun fill_in_containers :: "('p, 'e) webdriver \<Rightarrow> string list \<Rightarrow> string \<Rightarrow> ('p, 'e) wd_state
                           \<Rightarrow> ((py_exn + bool) \<times> ('p, 'e) wd_state) option" where
  "fill_in_containers drv [] v st = None"
| "fill_in_containers drv (variant # variants) v st =
     (case find_in_question_container drv (fst st) variant ''.//input | .//textarea'' of
        Some el \<Rightarrow> Some (clear_and_type drv el v st)
      | None \<Rightarrow> fill_in_containers drv variants v st)"

fun fill_by_locators :: "('p, 'e) webdriver \<Rightarrow> string list \<Rightarrow> string \<Rightarrow> ('p, 'e) wd_state
                         \<Rightarrow> (py_exn + bool) \<times> ('p, 'e) wd_state" where
  "fill_by_locators drv [] v st = (Inr False, st)"
| "fill_by_locators drv (xp # xps) v st =
     (case find_element drv (fst st) xp of
        Some el \<Rightarrow> clear_and_type drv el v st
      | None \<Rightarrow> fill_by_locators drv xps v st)"

definition fill_text_field :: "('p, 'e) webdriver \<Rightarrow> string \<Rightarrow> string \<Rightarrow> ('p, 'e) wd_state
                               \<Rightarrow> (py_exn + bool) \<times> ('p, 'e) wd_state" where
  "fill_text_field drv label v st =
     (let variants = candidate_label_variants label;
          locators = concat (map text_locators variants)
      in case fill_in_containers drv variants v st of
           Some r \<Rightarrow> r
         | None \<Rightarrow> fill_by_locators drv locators v st)"

subsection \<open>\<open>select_checkboxes\<close>\<close>

definition checkbox_xpath :: "string \<Rightarrow> string \<Rightarrow> string" where
  "checkbox_xpath pre ov =
     pre @ ''//div[@role='' @ [sq] @ ''checkbox'' @ [sq] @ '' and @aria-label='' @ ov @ '']''"

definition checkbox_contains_xpath :: "string \<Rightarrow> string" where
  "checkbox_contains_xpath ov =
     ''//div[@role='' @ [sq] @ ''checkbox'' @ [sq] @ '' and contains(@aria-label, '' @ ov @ '')]''"

text \<open>The element \<open>el\<close> of one turn of the loop: in the question's container, else
  anywhere by its label, else anywhere by a part of its label.\<close>

definition locate_checkbox :: "('p, 'e) webdriver \<Rightarrow> 'p \<Rightarrow> string \<Rightarrow> string \<Rightarrow> 'e option" where
  "locate_checkbox drv p question_label opt =
     (let ov = xpath_literal opt in
      case find_in_question_container drv p question_label (checkbox_xpath ''.'' ov) of
        Some el \<Rightarrow> Some el
      | None \<Rightarrow>
          (case find_element drv p (checkbox_xpath [] ov) of
             Some el \<Rightarrow> Some el
           | None \<Rightarrow> find_element drv p (checkbox_contains_xpath ov)))"

text \<open>The loop \<open>for opt in option_values\<close>, with the flag \<open>success\<close>.\<close>

fun check_options :: "('p, 'e) webdriver \<Rightarrow> string \<Rightarrow> string list \<Rightarrow> bool
                      \<Rightarrow> ('p, 'e) wd_state \<Rightarrow> (py_exn + bool) \<times> ('p, 'e) wd_state" where
  "check_options drv question_label [] success st = (Inr success, st)"
| "check_options drv question_label (raw # rest) success st =
     (let opt = py_strip raw in
      if opt = [] then check_options drv question_label rest success st
      else
        (case locate_checkbox drv (fst st) question_label opt of
           Some el \<Rightarrow>
             if get_attribute drv (fst st) el ''aria-checked'' \<noteq> Some ''true'' then
               (case wd_run drv (ClickEl el) st of
                  (None, st') \<Rightarrow> check_options drv question_label rest success st'
                | (Some e, st') \<Rightarrow> (Inl e, st'))
             else check_options drv question_label rest success st
         | None \<Rightarrow> check_options drv question_label rest False st))"

definition select_checkboxes :: "('p, 'e) webdriver \<Rightarrow> string \<Rightarrow> string list \<Rightarrow> ('p, 'e) wd_state
                                 \<Rightarrow> (py_exn + bool) \<times> ('p, 'e) wd_state" where
  "select_checkboxes drv question_label option_values st =
     check_options drv question_label option_values True st"

text \<open>Replaying commands from a page: every click in them is on a control whose
  \<open>aria-checked\<close> is not \<open>true\<close> at that moment.\<close>

fun clicks_unchecked_only :: "('p, 'e) webdriver \<Rightarrow> 'p \<Rightarrow> 'e wd_command list \<Rightarrow> bool" where
  "clicks_unchecked_only drv p [] = True"
| "clicks_unchecked_only drv p (c # cs) =
     ((case c of ClickEl el \<Rightarrow> get_attribute drv p el ''aria-checked'' \<noteq> Some ''true''
              | _ \<Rightarrow> True)
      \<and> clicks_unchecked_only drv (fst (wd_exec drv c p)) cs)"

text \<open>The page after a list of commands.\<close>

fun page_after :: "('p, 'e) webdriver \<Rightarrow> 'p \<Rightarrow> 'e wd_command list \<Rightarrow> 'p" where
  "page_after drv p [] = p"
| "page_after drv p (c # cs) = page_after drv (fst (wd_exec drv c p)) cs"

text \<open>
  A small page for the examples: two checkbox controls, 1 labelled \<open>Red\<close> and 2
  labelled \<open>Blue\<close>, found by their labels anywhere in the page; the page is the list
  of the controls that are checked, and a click on a control toggles it.
\<close>

definition toy_driver :: "(nat list, nat) webdriver" where
  "toy_driver =
     \<lparr>find_elements = (\<lambda>p xp. if xp = checkbox_xpath [] (xpath_literal ''Red'') then [1]
                               else if xp = checkbox_xpath [] (xpath_literal ''Blue'') then [2]
                               else []),
      find_within = (\<lambda>p el xp. []),
      get_attribute = (\<lambda>p el a. if a = ''aria-checked''
                                  then (if el \<in> set p then Some ''true'' else Some ''false'')
                                  else None),
      wd_exec = (\<lambda>c p. case c of
                   ClickEl el \<Rightarrow> (if el \<in> set p then removeAll el p else el # p, None)
                 | _ \<Rightarrow> (p, None))\<rparr>"

section \<open>A page as a tree, and the XPaths of \<open>main.py\<close> on it\<close>

text \<open>
  The document: elements with a tag, attributes and children, and text. An element is
  named by its path from the root, the list of child positions.
\<close>

datatype node = Element string "(string \<times> string) list" "node list" | Text string

fun tag_of :: "node \<Rightarrow> string" where
  "tag_of (Element t attrs kids) = t"
| "tag_of (Text s) = []"

fun attr_of :: "node \<Rightarrow> string \<Rightarrow> string option" where
  "attr_of (Element t attrs kids) a = map_of attrs a"
| "attr_of (Text s) a = None"

text \<open>The elements of a tree in document order, each with its path; the first is the
  root of the tree itself.\<close>

fun elems :: "nat list \<Rightarrow> node \<Rightarrow> (nat list \<times> node) list"
  and elems_list :: "nat list \<Rightarrow> nat \<Rightarrow> node list \<Rightarrow> (nat list \<times> node) list" where
  "elems pre (Text s) = []"
| "elems pre (Element t attrs kids) = (pre, Element t attrs kids) # elems_list pre 0 kids"
| "elems_list pre i [] = []"
| "elems_list pre i (k # ks) = elems (pre @ [i]) k @ elems_list pre (Suc i) ks"

text \<open>The string value of a node and XPath's \<open>normalize-space\<close>.\<close>

fun string_value :: "node \<Rightarrow> string" where
  "string_value (Text s) = s"
| "string_value (Element t attrs kids) = concat (map string_value kids)"

fun split_where :: "(char \<Rightarrow> bool) \<Rightarrow> string \<Rightarrow> string list" where
  "split_where P [] = [[]]"
| "split_where P (x # xs) =
     (if P x then [] # split_where P xs
      else (case split_where P xs of [] \<Rightarrow> [[x]] | w # ws \<Rightarrow> (x # w) # ws))"

definition normalize_space :: "string \<Rightarrow> string" where
  "normalize_space s = join '' '' (filter (\<lambda>w. w \<noteq> []) (split_where is_xml_space s))"

text \<open>
  The XPaths that \<open>fill_text_field\<close> and \<open>select_checkboxes\<close> build, read back: each is
  a fixed text before and after a string expression. From the document:
  an element of a tag whose attribute equals, or contains, a string; a \<open>div\<close> of a role
  whose \<open>aria-label\<close> equals, or contains, a string; a \<open>div\<close> with the role
  \<open>listitem\<close> that has an element below it whose normalized text equals a string. From
  an element: the inputs and text areas below it; the \<open>div\<close>s of a role and label
  below it.
\<close>

datatype query =
    TagAttrEq string string string
  | TagAttrContains string string string
  | RoleLabelEq string string
  | RoleLabelContains string string
  | ListItemWith string

datatype rel_query = InputOrTextarea | RelRoleLabelEq string string

definition between :: "string \<Rightarrow> string \<Rightarrow> string \<Rightarrow> string option" where
  "between pre suf s =
     (if length pre + length suf \<le> length s \<and> take (length pre) s = pre
         \<and> drop (length s - length suf) s = suf
      then Some (take (length s - length pre - length suf) (drop (length pre) s))
      else None)"

definition shape :: "string \<Rightarrow> string \<Rightarrow> (string \<Rightarrow> 'a) \<Rightarrow> string \<Rightarrow> 'a option" where
  "shape pre suf mk xp =
     (case between pre suf xp of
        None \<Rightarrow> None
      | Some m \<Rightarrow> (case xpath_string_value m of None \<Rightarrow> None | Some v \<Rightarrow> Some (mk v)))"

fun first_some :: "'a option list \<Rightarrow> 'a option" where
  "first_some [] = None"
| "first_some (None # xs) = first_some xs"
| "first_some (Some x # xs) = Some x"

definition parse_xpath :: "string \<Rightarrow> query option" where
  "parse_xpath xp = first_some
     [shape ''//input[@aria-label='' '']'' (TagAttrEq ''input'' ''aria-label'') xp,
      shape ''//textarea[@aria-label='' '']'' (TagAttrEq ''textarea'' ''aria-label'') xp,
      shape ''//input[contains(@aria-label, '' '')]'' (TagAttrContains ''input'' ''aria-label'') xp,
      shape ''//textarea[contains(@aria-label, '' '')]''
        (TagAttrContains ''textarea'' ''aria-label'') xp,
      shape (''//div[@role='' @ [sq] @ ''checkbox'' @ [sq] @ '' and @aria-label='') '']''
        (RoleLabelEq ''checkbox'') xp,
      shape (''//div[@role='' @ [sq] @ ''checkbox'' @ [sq] @ '' and contains(@aria-label, '')
        '')]'' (RoleLabelContains ''checkbox'') xp,
      shape (''//div[@role='' @ [sq] @ ''listitem'' @ [sq] @ '' and .//*[normalize-space()='')
        '']]'' ListItemWith xp]"

definition parse_rel :: "string \<Rightarrow> rel_query option" where
  "parse_rel xp =
     (if xp = ''.//input | .//textarea'' then Some InputOrTextarea
      else shape (''.//div[@role='' @ [sq] @ ''checkbox'' @ [sq] @ '' and @aria-label='') '']''
             (RelRoleLabelEq ''checkbox'') xp)"

text \<open>An attribute that is missing counts as the empty string in \<open>contains\<close>.\<close>

definition attr_text :: "node \<Rightarrow> string \<Rightarrow> string" where
  "attr_text n a = (case attr_of n a of None \<Rightarrow> [] | Some x \<Rightarrow> x)"

fun sat :: "query \<Rightarrow> node \<Rightarrow> bool" where
  "sat (TagAttrEq t a v) n = (tag_of n = t \<and> attr_of n a = Some v)"
| "sat (TagAttrContains t a v) n = (tag_of n = t \<and> py_contains v (attr_text n a))"
| "sat (RoleLabelEq r v) n =
     (tag_of n = ''div'' \<and> attr_of n ''role'' = Some r \<and> attr_of n ''aria-label'' = Some v)"
| "sat (RoleLabelContains r v) n =
     (tag_of n = ''div'' \<and> attr_of n ''role'' = Some r \<and> py_contains v (attr_text n ''aria-label''))"
| "sat (ListItemWith v) n =
     (tag_of n = ''div'' \<and> attr_of n ''role'' = Some ''listitem''
      \<and> list_ex (\<lambda>d. normalize_space (string_value (snd d)) = v) (tl (elems [] n)))"

fun holds_below :: "rel_query \<Rightarrow> node \<Rightarrow> bool" where
  "holds_below InputOrTextarea n = (tag_of n = ''input'' \<or> tag_of n = ''textarea'')"
| "holds_below (RelRoleLabelEq r v) n = sat (RoleLabelEq r v) n"

definition dom_find_elements :: "node \<Rightarrow> string \<Rightarrow> nat list list" where
  "dom_find_elements root xp =
     (case parse_xpath xp of
        None \<Rightarrow> []
      | Some q \<Rightarrow> map fst (filter (\<lambda>d. sat q (snd d)) (elems [] root)))"

definition dom_find_within :: "node \<Rightarrow> nat list \<Rightarrow> string \<Rightarrow> nat list list" where
  "dom_find_within root pth xp =
     (case map_of (elems [] root) pth of
        None \<Rightarrow> []
      | Some n \<Rightarrow>
          (case parse_rel xp of
             None \<Rightarrow> []
           | Some q \<Rightarrow> map fst (filter (\<lambda>d. holds_below q (snd d)) (tl (elems pth n)))))"

definition dom_get_attribute :: "node \<Rightarrow> nat list \<Rightarrow> string \<Rightarrow> string option" where
  "dom_get_attribute root pth a =
     (case map_of (elems [] root) pth of None \<Rightarrow> None | Some n \<Rightarrow> attr_of n a)"

text \<open>The driver of a page that commands do not change: they are only recorded.\<close>

definition dom_driver :: "(node, nat list) webdriver" where
  "dom_driver = \<lparr>find_elements = dom_find_elements, find_within = dom_find_within,
                  get_attribute = dom_get_attribute, wd_exec = (\<lambda>c p. (p, None))\<rparr>"

text \<open>A form with two questions: a text area labelled \<open>Notes *\<close> outside any question
  block, and a question block \<open>Name\<close> with an input labelled \<open>Name (Required)\<close>.\<close>

definition sample_form :: node where
  "sample_form =
     Element ''form'' []
       [Element ''textarea'' [(''aria-label'', ''Notes *'')] [],
        Element ''div'' [(''role'', ''listitem'')]
          [Element ''span'' [] [Text '' Name  ''],
           Element ''input'' [(''aria-label'', ''Name (Required)'')] []]]"

section \<open>Properties of the prefiller\<close>

lemma re_digits_Some:
  "re_digits n s = Some (a, r) \<longleftrightarrow> length a = n \<and> list_all is_digit a \<and> s = a @ r"
  by (auto simp: re_digits_def min_def)

lemma re_digits_app:
  "length a = n \<Longrightarrow> list_all is_digit a \<Longrightarrow> re_digits n (a @ r) = Some (a, r)"
  by (simp add: re_digits_def)

lemma re_digits_self:
  "length a = n \<Longrightarrow> list_all is_digit a \<Longrightarrow> re_digits n a = Some (a, [])"
  using re_digits_app [of a n "[]"] by simp

lemma re_char_Some: "re_char c s = Some r \<longleftrightarrow> s = c # r"
  by (cases s) auto

lemma re_date_iff:
  "re_date s = Some (y, mo, d) \<longleftrightarrow>
     length y = 4 \<and> list_all is_digit y \<and> length mo = 2 \<and> list_all is_digit mo \<and>
     length d = 2 \<and> list_all is_digit d \<and>
     (s = y @ ''-'' @ mo @ ''-'' @ d \<or> s = y @ ''-'' @ mo @ ''-'' @ d @ [nl])"
proof
  assume "re_date s = Some (y, mo, d)"
  then show "length y = 4 \<and> list_all is_digit y \<and> length mo = 2 \<and> list_all is_digit mo \<and>
     length d = 2 \<and> list_all is_digit d \<and>
     (s = y @ ''-'' @ mo @ ''-'' @ d \<or> s = y @ ''-'' @ mo @ ''-'' @ d @ [nl])"
    by (auto simp: re_date_def re_digits_Some re_char_Some re_dollar_def
             split: option.splits prod.splits if_splits)
next
  assume a: "length y = 4 \<and> list_all is_digit y \<and> length mo = 2 \<and> list_all is_digit mo \<and>
     length d = 2 \<and> list_all is_digit d \<and>
     (s = y @ ''-'' @ mo @ ''-'' @ d \<or> s = y @ ''-'' @ mo @ ''-'' @ d @ [nl])"
  then show "re_date s = Some (y, mo, d)"
    by (auto simp: re_date_def re_digits_app re_digits_self re_dollar_def)
qed

lemma re_time_iff:
  "re_time s = Some (hh, mm) \<longleftrightarrow>
     length hh = 2 \<and> list_all is_digit hh \<and> length mm = 2 \<and> list_all is_digit mm \<and>
     (s = hh @ '':'' @ mm \<or> s = hh @ '':'' @ mm @ [nl])"
proof
  assume "re_time s = Some (hh, mm)"
  then show "length hh = 2 \<and> list_all is_digit hh \<and> length mm = 2 \<and> list_all is_digit mm \<and>
     (s = hh @ '':'' @ mm \<or> s = hh @ '':'' @ mm @ [nl])"
    by (auto simp: re_time_def re_digits_Some re_char_Some re_dollar_def
             split: option.splits prod.splits if_splits)
next
  assume "length hh = 2 \<and> list_all is_digit hh \<and> length mm = 2 \<and> list_all is_digit mm \<and>
     (s = hh @ '':'' @ mm \<or> s = hh @ '':'' @ mm @ [nl])"
  then show "re_time s = Some (hh, mm)"
    by (auto simp: re_time_def re_digits_app re_digits_self re_dollar_def)
qed

lemma py_int_digits: "s \<noteq> [] \<Longrightarrow> list_all is_digit s \<Longrightarrow> \<exists>n. py_int s = Some n"
  by (simp add: py_int_def)

lemma digit_char: "is_digit c \<Longrightarrow> char_of (48 + digit_val c) = c \<and> digit_val c < 10"
proof -
  assume "is_digit c"
  then have r: "48 \<le> (of_char c :: nat) \<and> (of_char c :: nat) \<le> 57"
    by (simp add: is_digit_def less_eq_char_def)
  then have "48 + digit_val c = (of_char c :: nat)"
    by (simp add: digit_val_def)
  then have "char_of (48 + digit_val c) = char_of (of_char c :: nat)"
    by simp
  moreover have "digit_val c < 10"
    using r by (auto simp: digit_val_def)
  ultimately show ?thesis
    by simp
qed

lemma char_of_48: "char_of (48::nat) = CHR ''0''"
  by code_simp

lemma digit_val_zero: "is_digit c \<Longrightarrow> digit_val c = 0 \<longleftrightarrow> c = CHR ''0''"
proof -
  assume d: "is_digit c"
  show ?thesis
  proof
    assume "digit_val c = 0"
    with digit_char [OF d] have "char_of (48::nat) = c" by simp
    then show "c = CHR ''0''" by (simp add: char_of_48)
  next
    assume "c = CHR ''0''"
    then show "digit_val c = 0" by (simp add: digit_val_def)
  qed
qed

lemma py_int_two: "py_int [a, b] = (if is_digit a \<and> is_digit b then Some (10 * digit_val a + digit_val b) else None)"
  by (simp add: py_int_def)

lemma py_str_nat_two:
  assumes "is_digit a" and "is_digit b"
  shows "py_str_nat (10 * digit_val a + digit_val b) = (if a = CHR ''0'' then [b] else [a, b])"
proof (cases "a = CHR ''0''")
  case True
  then have "digit_val a = 0" by (simp add: digit_val_def)
  then show ?thesis
    using True digit_char [OF assms(2)] by (simp add: py_str_nat.simps)
next
  case False
  then have pos: "0 < digit_val a" using digit_val_zero [OF assms(1)] by simp
  let ?n = "10 * digit_val a + digit_val b"
  have "?n div 10 = digit_val a" and "?n mod 10 = digit_val b" and "\<not> ?n < 10"
    using digit_char [OF assms(2)] pos by auto
  then have "py_str_nat ?n = py_str_nat (digit_val a) @ [char_of (48 + digit_val b)]"
    using py_str_nat.simps [of ?n] by simp
  also have "py_str_nat (digit_val a) = [a]"
    using digit_char [OF assms(1)] by (simp add: py_str_nat.simps)
  finally show ?thesis
    using False digit_char [OF assms(2)] by simp
qed

lemma fmt_02d_two:
  assumes "is_digit a" and "is_digit b"
  shows "fmt_02d (10 * digit_val a + digit_val b) = [a, b]"
  using py_str_nat_two [OF assms] by (simp add: fmt_02d_def Let_def)

lemma two_chars: "length s = 2 \<Longrightarrow> \<exists>a b. s = [a, b]"
  by (cases s; cases "tl s") auto

lemma date_parts_two:
  assumes "length mo = 2" "list_all is_digit mo" "length d = 2" "list_all is_digit d"
  shows "date_parts (y, mo, d) = Inr [(''_year'', y), (''_month'', unpad mo), (''_day'', unpad d)]"
proof -
  obtain a b where mo: "mo = [a, b]" using two_chars [OF assms(1)] by blast
  obtain c e where d: "d = [c, e]" using two_chars [OF assms(3)] by blast
  show ?thesis
    using assms(2,4) unfolding mo d
    by (simp add: date_parts_def py_int_two py_str_nat_two unpad_def)
qed

lemma time_parts_two:
  assumes "length hh = 2" "list_all is_digit hh" "length mm = 2" "list_all is_digit mm"
  shows "time_parts (hh, mm) = Inr [(''_hour'', unpad hh), (''_minute'', mm)]"
proof -
  obtain a b where hh: "hh = [a, b]" using two_chars [OF assms(1)] by blast
  obtain c e where mm: "mm = [c, e]" using two_chars [OF assms(3)] by blast
  show ?thesis
    using assms(2,4) unfolding hh mm
    by (simp add: time_parts_def py_int_two py_str_nat_two fmt_02d_two unpad_def)
qed

lemma fill_parts_plain:
  "fill_parts plain_page eid ps (u, log) = Inr (u, log @ map (\<lambda>(suf, v). PageFill (part_selector eid suf) v) ps)"
  by (induction ps arbitrary: log) (auto simp: plain_page_def issue_def)

text \<open>
  Claim C1, as the code has it. For a date field with an entry id: a value that fails the
  format check \<open>(\d{4})-(\d{2})-(\d{2})$\<close> is passed over, page and command log
  unchanged; a value that passes is split into its three groups and entered as the
  year, the month without leading zero and the day without leading zero, into the
  sub-inputs named by the suffixes \<open>_year\<close>, \<open>_month\<close>, \<open>_day\<close>. The value
  \<open>2025-06-09\<close> gives 2025, 6 and 9. The check looks at the format only, not at the
  calendar: \<open>2025-13-40\<close> passes it and is split into 2025, 13 and 40.
\<close>

theorem date_fill:
  assumes "fc_type f = ''date''" and "fc_entry_id f = Some eid" and "eid \<noteq> []"
  shows "(re_date (py_str_value (fc_value f)) = None \<longrightarrow> prefill_field pw f st = Inr st) \<and>
         (\<forall>y mo d. re_date (py_str_value (fc_value f)) = Some (y, mo, d) \<longrightarrow>
            prefill_field pw f st =
              fill_parts pw eid [(''_year'', y), (''_month'', unpad mo), (''_day'', unpad d)] st) \<and>
         re_date ''2025-06-09'' = Some (''2025'', ''06'', ''09'') \<and>
         unpad ''06'' = ''6'' \<and> unpad ''09'' = ''9'' \<and>
         re_date ''2025-13-40'' = Some (''2025'', ''13'', ''40'') \<and>
         unpad ''13'' = ''13'' \<and> unpad ''40'' = ''40''"
proof -
  have skip: "re_date (py_str_value (fc_value f)) = None \<longrightarrow> prefill_field pw f st = Inr st"
    using assms by (simp add: prefill_field_def truthy_id_def)
  have split: "\<forall>y mo d. re_date (py_str_value (fc_value f)) = Some (y, mo, d) \<longrightarrow>
            prefill_field pw f st =
              fill_parts pw eid [(''_year'', y), (''_month'', unpad mo), (''_day'', unpad d)] st"
  proof (intro allI impI)
    fix y mo d
    assume m: "re_date (py_str_value (fc_value f)) = Some (y, mo, d)"
    then have "date_parts (y, mo, d) = Inr [(''_year'', y), (''_month'', unpad mo), (''_day'', unpad d)]"
      by (intro date_parts_two) (simp_all add: re_date_iff)
    with m show "prefill_field pw f st =
              fill_parts pw eid [(''_year'', y), (''_month'', unpad mo), (''_day'', unpad d)] st"
      using assms by (simp add: prefill_field_def truthy_id_def)
  qed
  have ex: "re_date ''2025-06-09'' = Some (''2025'', ''06'', ''09'')"
     "re_date ''2025-13-40'' = Some (''2025'', ''13'', ''40'')"
    by (simp_all add: re_date_iff is_digit_def)
  have un: "unpad ''06'' = ''6''" "unpad ''09'' = ''9''" "unpad ''13'' = ''13''" "unpad ''40'' = ''40''"
    by (simp_all add: unpad_def)
  show ?thesis using skip split ex un by blast
qed

text \<open>The theorem at the date \<open>2025-06-09\<close>, on a page where every sub-input exists.\<close>

theorem date_fill_witness:
  "fc_type (date_field ''7'' ''2025-06-09'') = ''date'' \<and>
   fc_entry_id (date_field ''7'' ''2025-06-09'') = Some ''7'' \<and> ''7'' \<noteq> [] \<and>
   prefill_field plain_page (date_field ''7'' ''2025-06-09'') ((), []) =
     Inr ((), [PageFill (part_selector ''7'' ''_year'') ''2025'',
               PageFill (part_selector ''7'' ''_month'') ''6'',
               PageFill (part_selector ''7'' ''_day'') ''9''])"
proof -
  have h: "fc_type (date_field ''7'' ''2025-06-09'') = ''date''"
     "fc_entry_id (date_field ''7'' ''2025-06-09'') = Some ''7''" "''7'' \<noteq> []"
    by (simp_all add: date_field_def)
  have v: "py_str_value (fc_value (date_field ''7'' ''2025-06-09'')) = ''2025-06-09''"
    by (simp add: date_field_def)
  note t = date_fill [OF h, of plain_page "((), [])", unfolded v]
  from t have m: "re_date ''2025-06-09'' = Some (''2025'', ''06'', ''09'')"
    by blast
  from t m have "prefill_field plain_page (date_field ''7'' ''2025-06-09'') ((), []) =
      fill_parts plain_page ''7''
        [(''_year'', ''2025''), (''_month'', unpad ''06''), (''_day'', unpad ''09'')] ((), [])"
    by blast
  then show ?thesis
    using h unfolding fill_parts_plain by (simp add: unpad_def)
qed

text \<open>
  Claim C1 as the specification words it does not hold: the value \<open>2025-13-40\<close> is not
  rejected by the format check; it is split and its three parts are entered.
\<close>

theorem date_invalid_calendar_accepted:
  "re_date ''2025-13-40'' = Some (''2025'', ''13'', ''40'') \<and>
   prefill_field plain_page (date_field ''7'' ''2025-13-40'') ((), []) =
     Inr ((), [PageFill (part_selector ''7'' ''_year'') ''2025'',
               PageFill (part_selector ''7'' ''_month'') ''13'',
               PageFill (part_selector ''7'' ''_day'') ''40''])"
  by code_simp

text \<open>
  Claim C4. For a time field with an entry id: a value that fails the pattern
  \<open>(\d{2}):(\d{2})$\<close> is passed over, page and command log unchanged; a value that
  passes is entered as the hour without leading zero and the minute as its two digits,
  into the sub-inputs named by the suffixes \<open>_hour\<close> and \<open>_minute\<close>. The value
  \<open>09:45\<close> gives hour 9 and minute 45; the value \<open>9:45\<close> fails the pattern.
\<close>

theorem time_fill:
  assumes "fc_type f = ''time''" and "fc_entry_id f = Some eid" and "eid \<noteq> []"
  shows "(re_time (py_str_value (fc_value f)) = None \<longrightarrow> prefill_field pw f st = Inr st) \<and>
         (\<forall>hh mm. re_time (py_str_value (fc_value f)) = Some (hh, mm) \<longrightarrow>
            prefill_field pw f st =
              fill_parts pw eid [(''_hour'', unpad hh), (''_minute'', mm)] st) \<and>
         re_time ''09:45'' = Some (''09'', ''45'') \<and> unpad ''09'' = ''9'' \<and>
         re_time ''9:45'' = None"
proof -
  have skip: "re_time (py_str_value (fc_value f)) = None \<longrightarrow> prefill_field pw f st = Inr st"
    using assms by (simp add: prefill_field_def truthy_id_def)
  have split: "\<forall>hh mm. re_time (py_str_value (fc_value f)) = Some (hh, mm) \<longrightarrow>
            prefill_field pw f st =
              fill_parts pw eid [(''_hour'', unpad hh), (''_minute'', mm)] st"
  proof (intro allI impI)
    fix hh mm
    assume m: "re_time (py_str_value (fc_value f)) = Some (hh, mm)"
    then have "time_parts (hh, mm) = Inr [(''_hour'', unpad hh), (''_minute'', mm)]"
      by (intro time_parts_two) (simp_all add: re_time_iff)
    with m show "prefill_field pw f st =
              fill_parts pw eid [(''_hour'', unpad hh), (''_minute'', mm)] st"
      using assms by (simp add: prefill_field_def truthy_id_def)
  qed
  have ex: "re_time ''09:45'' = Some (''09'', ''45'')"
    by (simp add: re_time_iff is_digit_def)
  have no: "re_time ''9:45'' = None"
    by (simp add: re_time_def re_digits_def is_digit_def)
  have un: "unpad ''09'' = ''9''"
    by (simp add: unpad_def)
  show ?thesis using skip split ex no un by blast
qed

text \<open>The theorem at \<open>09:45\<close> and at \<open>9:45\<close>, on a page where every sub-input exists.\<close>

theorem time_fill_witness:
  "fc_type (time_field ''7'' ''09:45'') = ''time'' \<and>
   fc_entry_id (time_field ''7'' ''09:45'') = Some ''7'' \<and> ''7'' \<noteq> [] \<and>
   prefill_field plain_page (time_field ''7'' ''09:45'') ((), []) =
     Inr ((), [PageFill (part_selector ''7'' ''_hour'') ''9'',
               PageFill (part_selector ''7'' ''_minute'') ''45'']) \<and>
   prefill_field plain_page (time_field ''7'' ''9:45'') ((), []) = Inr ((), [])"
proof -
  have h: "fc_type (time_field ''7'' v) = ''time''"
     "fc_entry_id (time_field ''7'' v) = Some ''7''" "''7'' \<noteq> []" for v
    by (simp_all add: time_field_def)
  have v: "py_str_value (fc_value (time_field ''7'' v)) = v" for v
    by (simp add: time_field_def)
  note t = time_fill [OF h, of "''09:45''" plain_page "((), [])", unfolded v]
  note u = time_fill [OF h, of "''9:45''" plain_page "((), [])", unfolded v]
  from t have m: "re_time ''09:45'' = Some (''09'', ''45'')"
    by blast
  from t m have a: "prefill_field plain_page (time_field ''7'' ''09:45'') ((), []) =
      fill_parts plain_page ''7'' [(''_hour'', unpad ''09''), (''_minute'', ''45'')] ((), [])"
    by blast
  from u have b: "prefill_field plain_page (time_field ''7'' ''9:45'') ((), []) = Inr ((), [])"
    by simp
  from a b show ?thesis
    using h unfolding fill_parts_plain by (simp add: unpad_def)
qed

section \<open>Properties of the XPath literals\<close>

lemma split_on_nonempty: "split_on c s \<noteq> []"
  by (induction s) (auto split: list.splits)

lemma split_on_free: "p \<in> set (split_on c s) \<Longrightarrow> c \<notin> set p"
  by (induction s arbitrary: p) (auto split: list.splits if_splits)

lemma join_split_on: "join [c] (split_on c s) = s"
proof (induction s)
  case Nil
  then show ?case by simp
next
  case (Cons x xs)
  obtain p ps where sp: "split_on c xs = p # ps"
    using split_on_nonempty [of c xs] by (cases "split_on c xs") auto
  show ?case
    using Cons sp by (cases ps) auto
qed

lemma split_on_length: "c \<in> set s \<Longrightarrow> 2 \<le> length (split_on c s)"
proof (induction s)
  case Nil
  then show ?case by simp
next
  case (Cons x xs)
  obtain p ps where sp: "split_on c xs = p # ps"
    using split_on_nonempty [of c xs] by (cases "split_on c xs") auto
  show ?case
    using Cons sp by (auto split: if_splits)
qed

lemma xpath_tokens_pieces: "xpath_tokens ps = map render (pieces ps)"
  by (induction ps rule: xpath_tokens.induct) auto

lemma concat_pieces: "concat (map piece_value (pieces ps)) = join [sq] ps"
  by (induction ps rule: pieces.induct) auto

lemma pieces_quoted: "Quoted p \<in> set (pieces ps) \<Longrightarrow> p \<in> set ps"
  by (induction ps rule: pieces.induct) (auto split: if_splits)

lemma scan_lit:
  "q \<notin> set p \<Longrightarrow> scan_args (InLit q acc) vs (p @ q # rest) = scan_args AfterArg (vs @ [acc @ p]) rest"
  by (induction p arbitrary: acc) auto

lemma scan_piece:
  assumes "\<And>p. t = Quoted p \<Longrightarrow> sq \<notin> set p"
  shows "scan_args ExpectArg vs (render t @ rest) = scan_args AfterArg (vs @ [piece_value t]) rest"
proof (cases t)
  case (Quoted p)
  then have "sq \<notin> set p" using assms by simp
  then show ?thesis
    using Quoted scan_lit [of sq p "[]" vs rest] by (simp add: is_xml_space_def sq_def)
next
  case Apostrophe
  then show ?thesis
    using scan_lit [of dq "[sq]" "[]" vs rest] by (simp add: is_xml_space_def sq_def dq_def)
qed

lemma scan_pieces:
  assumes "\<And>p. Quoted p \<in> set ts \<Longrightarrow> sq \<notin> set p" and "ts \<noteq> []"
  shows "scan_args ExpectArg vs (join '', '' (map render ts) @ '')'') = Some (vs @ map piece_value ts)"
  using assms
proof (induction ts arbitrary: vs rule: induct_list012)
  case 1
  then show ?case by simp
next
  case (2 t)
  then show ?case
    using scan_piece [of t vs "'')''"] by (simp add: is_xml_space_def)
next
  case (3 t u ts)
  have "scan_args ExpectArg vs (join '', '' (map render (t # u # ts)) @ '')'')
      = scan_args ExpectArg vs (render t @ ('', '' @ join '', '' (map render (u # ts)) @ '')''))"
    by simp
  also have "\<dots> = scan_args AfterArg (vs @ [piece_value t]) ('', '' @ join '', '' (map render (u # ts)) @ '')'')"
    using 3(3) by (intro scan_piece) simp
  also have "\<dots> = scan_args ExpectArg (vs @ [piece_value t]) (join '', '' (map render (u # ts)) @ '')'')"
    by (simp add: is_xml_space_def)
  also have "\<dots> = Some ((vs @ [piece_value t]) @ map piece_value (u # ts))"
    using 3(3) by (intro 3(2)) simp_all
  finally show ?case by simp
qed

lemma pieces_length:
  "length (pieces ps) = (length ps - 1) + length (filter (\<lambda>p. p \<noteq> []) ps)"
  by (induction ps rule: pieces.induct) auto

lemma set_join: "x \<in> set (join sep ps) \<Longrightarrow> x \<in> set sep \<or> (\<exists>p \<in> set ps. x \<in> set p)"
  by (induction sep ps rule: join.induct) auto

lemma pieces_two:
  assumes "sq \<in> set s" and "dq \<in> set s"
  shows "2 \<le> length (pieces (split_on sq s))"
proof -
  have "dq \<in> set (join [sq] (split_on sq s))"
    using assms(2) by (simp add: join_split_on)
  then obtain p where p: "p \<in> set (split_on sq s)" "dq \<in> set p"
    using set_join [of dq "[sq]" "split_on sq s"] by (auto simp: sq_def dq_def)
  then have "p \<in> set (filter (\<lambda>p. p \<noteq> []) (split_on sq s))"
    by auto
  then have "1 \<le> length (filter (\<lambda>p. p \<noteq> []) (split_on sq s))"
    by (cases "filter (\<lambda>p. p \<noteq> []) (split_on sq s)") auto
  moreover have "2 \<le> length (split_on sq s)"
    using assms(1) by (rule split_on_length)
  ultimately show ?thesis
    by (simp add: pieces_length)
qed

lemma literal_value:
  "q = sq \<or> q = dq \<Longrightarrow> q \<notin> set s \<Longrightarrow> xpath_string_value ([q] @ s @ [q]) = Some s"
  by (auto simp: xpath_string_value_def butlast_append)

lemma concat_value:
  assumes "\<And>p. Quoted p \<in> set ts \<Longrightarrow> sq \<notin> set p" and "2 \<le> length ts"
  shows "xpath_string_value (''concat('' @ join '', '' (map render ts) @ '')'')
           = Some (concat (map piece_value ts))"
proof -
  have ne: "ts \<noteq> []" using assms(2) by auto
  have "scan_args ExpectArg [] (join '', '' (map render ts) @ '')'') = Some ([] @ map piece_value ts)"
    using assms(1) ne by (rule scan_pieces)
  then show ?thesis
    using assms(2) by (simp add: xpath_string_value_def sq_def dq_def)
qed

lemma xpath_literal_value: "xpath_string_value (xpath_literal s) = Some s"
proof (cases "sq \<in> set s \<and> dq \<in> set s")
  case True
  then have two: "2 \<le> length (pieces (split_on sq s))"
    by (simp add: pieces_two)
  have free: "\<And>p. Quoted p \<in> set (pieces (split_on sq s)) \<Longrightarrow> sq \<notin> set p"
    using pieces_quoted split_on_free by blast
  have "xpath_string_value (xpath_literal s) =
      xpath_string_value (''concat('' @ join '', '' (map render (pieces (split_on sq s))) @ '')'')"
    using True by (simp add: xpath_literal_def xpath_tokens_pieces)
  also have "\<dots> = Some (concat (map piece_value (pieces (split_on sq s))))"
    using free two by (intro concat_value) auto
  finally show ?thesis
    by (simp add: concat_pieces join_split_on)
next
  case False
  then show ?thesis
    using literal_value [of sq s] literal_value [of dq s]
    by (auto simp: xpath_literal_def)
qed

text \<open>
  Claim C9. For every string \<open>s\<close>, \<open>_xpath_literal(s)\<close> is an XPath string expression
  whose value is exactly \<open>s\<close>: a single-quoted literal when \<open>s\<close> has no single quote,
  a double-quoted literal when it has a single quote but no double quote, and otherwise
  \<open>concat(...)\<close> of two or more tokens, each a single-quoted fragment free of single
  quotes or the double-quoted single quote, whose values concatenated give \<open>s\<close>.
\<close>

theorem xpath_literal_roundtrip:
  "xpath_string_value (xpath_literal s) = Some s \<and>
   (sq \<notin> set s \<longrightarrow> xpath_literal s = [sq] @ s @ [sq]) \<and>
   (sq \<in> set s \<and> dq \<notin> set s \<longrightarrow> xpath_literal s = [dq] @ s @ [dq]) \<and>
   (sq \<in> set s \<and> dq \<in> set s \<longrightarrow>
      xpath_literal s = ''concat('' @ join '', '' (map render (pieces (split_on sq s))) @ '')'' \<and>
      2 \<le> length (pieces (split_on sq s)) \<and>
      (\<forall>p. Quoted p \<in> set (pieces (split_on sq s)) \<longrightarrow> sq \<notin> set p) \<and>
      concat (map piece_value (pieces (split_on sq s))) = s)"
proof -
  have shape1: "sq \<notin> set s \<longrightarrow> xpath_literal s = [sq] @ s @ [sq]"
    by (simp add: xpath_literal_def)
  have shape2: "sq \<in> set s \<and> dq \<notin> set s \<longrightarrow> xpath_literal s = [dq] @ s @ [dq]"
    by (simp add: xpath_literal_def)
  have free: "\<forall>p. Quoted p \<in> set (pieces (split_on sq s)) \<longrightarrow> sq \<notin> set p"
    using pieces_quoted split_on_free by blast
  have val: "concat (map piece_value (pieces (split_on sq s))) = s"
    by (simp add: concat_pieces join_split_on)
  have shape3: "sq \<in> set s \<and> dq \<in> set s \<longrightarrow>
      xpath_literal s = ''concat('' @ join '', '' (map render (pieces (split_on sq s))) @ '')''"
    by (simp add: xpath_literal_def xpath_tokens_pieces)
  have round: "xpath_string_value (xpath_literal s) = Some s"
    by (rule xpath_literal_value)
  show ?thesis
    using shape1 shape2 shape3 free val round pieces_two by blast
qed

text \<open>The theorem at \<open>a'b"\<close>, at \<open>Name\<close> and at \<open>it's\<close>, one for each shape.\<close>

theorem xpath_literal_roundtrip_witness:
  "sq \<in> set [CHR ''a'', sq, CHR ''b'', dq] \<and> dq \<in> set [CHR ''a'', sq, CHR ''b'', dq] \<and>
   xpath_literal [CHR ''a'', sq, CHR ''b'', dq] =
     ''concat('' @ [sq] @ ''a'' @ [sq] @ '', '' @ [dq, sq, dq] @ '', '' @ [sq] @ ''b'' @ [dq] @ [sq] @ '')'' \<and>
   xpath_string_value (xpath_literal [CHR ''a'', sq, CHR ''b'', dq]) = Some [CHR ''a'', sq, CHR ''b'', dq] \<and>
   sq \<notin> set ''Name'' \<and> xpath_literal ''Name'' = [sq] @ ''Name'' @ [sq] \<and>
   sq \<in> set [CHR ''i'', CHR ''t'', sq, CHR ''s''] \<and> dq \<notin> set [CHR ''i'', CHR ''t'', sq, CHR ''s''] \<and>
   xpath_literal [CHR ''i'', CHR ''t'', sq, CHR ''s''] = [dq] @ [CHR ''i'', CHR ''t'', sq, CHR ''s''] @ [dq]"
proof -
  let ?x = "[CHR ''a'', sq, CHR ''b'', dq]"
  let ?y = "[CHR ''i'', CHR ''t'', sq, CHR ''s'']"
  have hx: "sq \<in> set ?x \<and> dq \<in> set ?x"
    by simp
  have hn: "sq \<notin> set ''Name''"
    by (simp add: sq_def)
  have hy: "sq \<in> set ?y \<and> dq \<notin> set ?y"
    by (simp add: sq_def dq_def)
  have px: "pieces (split_on sq ?x) = [Quoted ''a'', Apostrophe, Quoted [CHR ''b'', dq]]"
    by (simp add: sq_def dq_def)
  note rx = xpath_literal_roundtrip [of ?x, THEN conjunct1]
  note sx = xpath_literal_roundtrip [of ?x, THEN conjunct2, THEN conjunct2, THEN conjunct2,
      THEN mp, OF hx, THEN conjunct1]
  note sn = xpath_literal_roundtrip [of "''Name''", THEN conjunct2, THEN conjunct1, THEN mp, OF hn]
  note sy = xpath_literal_roundtrip [of ?y, THEN conjunct2, THEN conjunct2, THEN conjunct1,
      THEN mp, OF hy]
  have sx': "xpath_literal ?x =
     ''concat('' @ [sq] @ ''a'' @ [sq] @ '', '' @ [dq, sq, dq] @ '', '' @ [sq] @ ''b'' @ [dq] @ [sq] @ '')''"
    unfolding sx px by simp
  show ?thesis
    using hx hn hy rx sx' sn sy by simp
qed

section \<open>Properties of the reading of a row\<close>






lemma keys_fold_update:
  "fst ` set (fold (\<lambda>p d. AList.update (fst p) (snd p) d) ps d) = fst ` set d \<union> fst ` set ps"
  by (induction ps arbitrary: d) (auto simp: dom_update)

lemma distinct_fold_update:
  "distinct (map fst d) \<Longrightarrow> distinct (map fst (fold (\<lambda>p d. AList.update (fst p) (snd p) d) ps d))"
  by (induction ps arbitrary: d) (auto simp: distinct_update)




lemma dict_of_keys: "fst ` set (dict_of ps) = fst ` set ps"
  by (simp add: dict_of_def keys_fold_update)

lemma dict_of_distinct: "distinct (map fst (dict_of ps))"
  by (simp add: dict_of_def distinct_fold_update)







section \<open>Properties of the fallback mapping\<close>

lemma first_match_member: "first_match options v = Some opt \<Longrightarrow> opt \<in> set options"
  by (induction options) (auto split: if_splits)

lemma keep_matches_subset: "set (keep_matches vs options) \<subseteq> set options"
  by (auto simp: keep_matches_def)

lemma guess_value_choice_eq:
  assumes "ftype = ''dropdown'' \<or> ftype = ''choice''"
  shows "guess_value label ftype options basic =
     (case (case pick basic [''choice'', ''selection'', ''option'', ''answer'', ''value''] (PStr []) of
              PStr s \<Rightarrow> if options \<noteq> [] then first_match options s else None
            | _ \<Rightarrow> None) of
        Some opt \<Rightarrow> Inr (PStr opt)
      | None \<Rightarrow> Inr (PStr (first_or_empty options)))"
  using assms
proof
  assume "ftype = ''dropdown''"
  then show ?thesis unfolding guess_value_def Let_def by simp
next
  assume "ftype = ''choice''"
  then show ?thesis unfolding guess_value_def Let_def by simp
qed

text \<open>With the type \<open>dropdown\<close> or \<open>choice\<close>, \<open>_guess_value\<close> always returns, and
  returns an option of the list, or the empty string when the list is empty.\<close>

lemma guess_value_choice:
  assumes "ftype = ''dropdown'' \<or> ftype = ''choice''"
  shows "\<exists>s. guess_value label ftype options basic = Inr (PStr s) \<and>
             (if options = [] then s = [] else s \<in> set options)"
proof -
  let ?m = "case pick basic [''choice'', ''selection'', ''option'', ''answer'', ''value''] (PStr []) of
              PStr s \<Rightarrow> if options \<noteq> [] then first_match options s else None
            | _ \<Rightarrow> None"
  show ?thesis
  proof (cases ?m)
    case None
    then have "guess_value label ftype options basic = Inr (PStr (first_or_empty options))"
      using guess_value_choice_eq [OF assms, of label options basic] by simp
    moreover have "if options = [] then first_or_empty options = []
                   else first_or_empty options \<in> set options"
      by (cases options) (simp_all add: first_or_empty_def)
    ultimately show ?thesis by blast
  next
    case (Some opt)
    then have g: "guess_value label ftype options basic = Inr (PStr opt)"
      using guess_value_choice_eq [OF assms, of label options basic] by simp
    from Some obtain s where "first_match options s = Some opt"
      by (auto split: pyval.splits if_splits)
    then have "opt \<in> set options"
      by (rule first_match_member)
    then have "if options = [] then opt = [] else opt \<in> set options"
      by auto
    with g show ?thesis by blast
  qed
qed

text \<open>With the type \<open>checkbox\<close>, what \<open>_guess_value\<close> returns, when it returns, is a
  list of options of the list.\<close>

lemma guess_value_checkbox:
  assumes "guess_value label ''checkbox'' options basic = Inr v"
  shows "\<exists>xs. v = PList (map PStr xs) \<and> set xs \<subseteq> set options"
  using assms keep_matches_subset
  by (auto simp: guess_value_def Let_def split: sum.splits)

lemma checkbox_hint_truthy: "truthy (checkbox_hint basic) \<or> checkbox_hint basic = PList []"
  by (simp add: checkbox_hint_def py_or_def)

lemma guess_value_checkbox_eq:
  "guess_value label ''checkbox'' options basic =
      (case py_iter (py_or (case checkbox_hint basic of PStr s \<Rightarrow> PList [checkbox_hint basic] | _ \<Rightarrow> checkbox_hint basic) (PList [])) of
            Inl e \<Rightarrow> Inl e
          | Inr vs \<Rightarrow> Inr (PList (map PStr (keep_matches vs options))))"
  unfolding guess_value_def checkbox_hint_def Let_def by simp

text \<open>The checkbox branch raises exactly when the hint is a number or a truth value,
  which \<open>for o in v\<close> cannot run over.\<close>

lemma guess_value_checkbox_raises:
  "(\<exists>e. guess_value label ''checkbox'' options basic = Inl e) \<longleftrightarrow>
     (\<exists>i. checkbox_hint basic = PInt i) \<or> (\<exists>b. checkbox_hint basic = PBool b)"
proof (cases "checkbox_hint basic")
  case PNone
  then show ?thesis using checkbox_hint_truthy [of basic] by simp
next
  case (PBool b)
  then show ?thesis using checkbox_hint_truthy [of basic]
    by (auto simp: guess_value_checkbox_eq py_or_def)
next
  case (PInt i)
  then show ?thesis using checkbox_hint_truthy [of basic]
    by (simp add: guess_value_checkbox_eq py_or_def)
next
  case (PStr s)
  then show ?thesis
    by (simp add: guess_value_checkbox_eq py_or_def)
next
  case (PList xs)
  then show ?thesis
    by (simp add: guess_value_checkbox_eq py_or_def)
next
  case (PDict kvs)
  then show ?thesis
    by (simp add: guess_value_checkbox_eq py_or_def)
qed

lemma fallback_field_shape:
  assumes "fallback_field f basic = Inr m"
  shows "m_entry_id m = d_entry_id f \<and> m_question_label m = d_question_label f \<and>
         m_type m = d_type f \<and> (d_type f = ''checkbox'' \<longrightarrow> is_list (m_value m))"
  using assms
  by (auto simp: fallback_field_def Let_def is_list_def split: sum.splits if_splits)

lemma fallback_fields_shape:
  assumes "fallback_fields fs basic acc = Inr ms"
  shows "\<exists>ns. ms = acc @ ns \<and> length ns = length fs \<and>
           (\<forall>i < length fs. m_entry_id (ns ! i) = d_entry_id (fs ! i) \<and>
               m_question_label (ns ! i) = d_question_label (fs ! i) \<and>
               m_type (ns ! i) = d_type (fs ! i) \<and>
               (d_type (fs ! i) = ''checkbox'' \<longrightarrow> is_list (m_value (ns ! i))))"
  using assms
proof (induction fs arbitrary: acc)
  case Nil
  then show ?case by simp
next
  case (Cons f fs)
  from Cons.prems obtain m where m: "fallback_field f basic = Inr m"
    and rest: "fallback_fields fs basic (acc @ [m]) = Inr ms"
    by (auto split: sum.splits)
  from Cons.IH [OF rest] obtain ns where ns: "ms = (acc @ [m]) @ ns" "length ns = length fs"
    and sh: "\<forall>i < length fs. m_entry_id (ns ! i) = d_entry_id (fs ! i) \<and>
               m_question_label (ns ! i) = d_question_label (fs ! i) \<and>
               m_type (ns ! i) = d_type (fs ! i) \<and>
               (d_type (fs ! i) = ''checkbox'' \<longrightarrow> is_list (m_value (ns ! i)))"
    by blast
  have "\<forall>i < length (f # fs). m_entry_id ((m # ns) ! i) = d_entry_id ((f # fs) ! i) \<and>
               m_question_label ((m # ns) ! i) = d_question_label ((f # fs) ! i) \<and>
               m_type ((m # ns) ! i) = d_type ((f # fs) ! i) \<and>
               (d_type ((f # fs) ! i) = ''checkbox'' \<longrightarrow> is_list (m_value ((m # ns) ! i)))"
  proof (intro allI impI)
    fix i
    assume "i < length (f # fs)"
    then show "m_entry_id ((m # ns) ! i) = d_entry_id ((f # fs) ! i) \<and>
               m_question_label ((m # ns) ! i) = d_question_label ((f # fs) ! i) \<and>
               m_type ((m # ns) ! i) = d_type ((f # fs) ! i) \<and>
               (d_type ((f # fs) ! i) = ''checkbox'' \<longrightarrow> is_list (m_value ((m # ns) ! i)))"
      using fallback_field_shape [OF m] sh by (cases i) auto
  qed
  then show ?case
    using ns by (intro exI [of _ "m # ns"]) simp
qed

text \<open>When \<open>_fallback_config\<close> returns, the mapping has one entry for each descriptor,
  in order, with its entry id, label and type, and a list as the value of every
  checkbox field.\<close>

lemma fallback_config_complete:
  assumes "fallback_config url summary basic = Inr cfg"
  shows "cfg_form_url cfg = url \<and> length (cfg_fields cfg) = length summary \<and>
         (\<forall>i < length summary.
             m_entry_id (cfg_fields cfg ! i) = d_entry_id (summary ! i) \<and>
             m_question_label (cfg_fields cfg ! i) = d_question_label (summary ! i) \<and>
             m_type (cfg_fields cfg ! i) = d_type (summary ! i) \<and>
             (d_type (summary ! i) = ''checkbox'' \<longrightarrow> is_list (m_value (cfg_fields cfg ! i))))"
proof -
  from assms obtain ms where ms: "fallback_fields summary basic [] = Inr ms"
    and cfg: "cfg = \<lparr>cfg_form_url = url, cfg_fields = ms\<rparr>"
    by (auto simp: fallback_config_def split: sum.splits)
  from fallback_fields_shape [OF ms] show ?thesis
    unfolding cfg by auto
qed

text \<open>Every way the call to the model can fail ends in the fallback: no API key, an
  exception from the model, text from which no JSON can be taken, text that does not
  parse, and data that is no dictionary with a list under \<open>fields\<close>.\<close>

lemma call_gemini_falls_back:
  assumes "prompt_guidance env = Inr g"
    and "\<not> api_key_set env
         \<or> (\<exists>e. generate env (g, url, summary, basic) = Inl e)
         \<or> (\<exists>resp. generate env (g, url, summary, basic) = Inr resp \<and>
              ((\<exists>e. extract_json_text (response_text resp) = Inl e)
               \<or> (\<exists>j. extract_json_text (response_text resp) = Inr j \<and>
                    ((\<exists>e. json_loads env j = Inl e)
                     \<or> (\<exists>data. json_loads env j = Inr data \<and>
                           (\<forall>d. data = PDict d \<longrightarrow> \<not> is_list (dict_get d ''fields'')))))))"
  shows "call_gemini env url summary basic = use_fallback url summary basic"
  using assms
  by (auto simp: call_gemini_def split: sum.splits pyval.splits)

text \<open>
  Claim C10 at an input where the code leaves it. The claim holds for the types
  \<open>dropdown\<close> and \<open>choice\<close> (\<open>guess_value_choice\<close>), and for \<open>checkbox\<close> whenever
  \<open>_guess_value\<close> returns (\<open>guess_value_checkbox\<close>); but with the profile
  \<open>{"selections": 5}\<close> the checkbox branch returns no list: the loop \<open>for o in v\<close>
  raises \<open>TypeError\<close>.
\<close>

theorem guess_value_checkbox_number_hint:
  "guess_value ''Pick'' ''checkbox'' [''A'', ''B''] [(''selections'', PInt 5)]
     = Inl (TypeError ''int object is not iterable'')"
  by code_simp

text \<open>
  Claim C2 at an input where the code leaves it. Every failure of the call to the model
  ends in \<open>_fallback_config\<close> (\<open>call_gemini_falls_back\<close>), and what \<open>_fallback_config\<close>
  returns has one entry for each descriptor (\<open>fallback_config_complete\<close>); but with
  no API key, one checkbox field and the profile \<open>{"selections": 5}\<close>, both
  \<open>_fallback_config\<close> and \<open>call_gemini\<close> raise \<open>TypeError\<close> and no mapping is
  produced. The same happens for a text field labelled \<open>Full name\<close> with the profile
  \<open>{"first_name": 7}\<close>, where \<open>fn + ' ' + ln\<close> raises.
\<close>

theorem fallback_config_number_hint:
  "fallback_config ''u'' [checkbox_descriptor] [(''selections'', PInt 5)]
     = Inl (TypeError ''int object is not iterable'') \<and>
   call_gemini no_key_env ''u'' [checkbox_descriptor] [(''selections'', PInt 5)]
     = Inl (TypeError ''int object is not iterable'') \<and>
   call_gemini no_key_env ''u'' [name_descriptor] [(''first_name'', PInt 7)]
     = Inl (TypeError ''unsupported operand type(s) for +'')"
  by code_simp

section \<open>Properties of the Airtable filler\<close>

lemma scan_patterns_silent:
  assumes "\<forall>pattern \<in> set ps. \<forall>p.
      (case pw_count pg p (TextPatternFirst (''text=/'' @ pattern @ ''/i'')) of
         Inl e \<Rightarrow> is_timeout e
       | Inr n \<Rightarrow> n = 0 \<or>
           (\<exists>p' e. pw_exec pg (WaitFor (TextPatternFirst (''text=/'' @ pattern @ ''/i''))
                         (timeout div int (length success_patterns))) p = (p', Some e)
                   \<and> is_timeout e))"
  shows "\<exists>st'. scan_patterns pg timeout ps st = (Inr False, st')"
  using assms
proof (induction ps arbitrary: st)
  case Nil
  then show ?case by simp
next
  case (Cons pattern rest)
  let ?loc = "TextPatternFirst (''text=/'' @ pattern @ ''/i'')"
  have rest: "\<exists>st'. scan_patterns pg timeout rest s = (Inr False, st')" for s
    using Cons.IH [of s] Cons.prems by simp
  have here: "case pw_count pg (fst st) ?loc of
         Inl e \<Rightarrow> is_timeout e
       | Inr n \<Rightarrow> n = 0 \<or>
           (\<exists>p' e. pw_exec pg (WaitFor ?loc (timeout div int (length success_patterns))) (fst st)
                      = (p', Some e) \<and> is_timeout e)"
    using Cons.prems by simp
  show ?case
  proof (cases "pw_count pg (fst st) ?loc")
    case (Inl e)
    then show ?thesis using here rest [of st] by (simp add: Let_def)
  next
    case (Inr n)
    show ?thesis
    proof (cases "n = 0")
      case True
      then show ?thesis using Inr rest [of st] by (simp add: Let_def)
    next
      case False
      with Inr here obtain p' e where
        w: "pw_exec pg (WaitFor ?loc (timeout div int (length success_patterns))) (fst st)
              = (p', Some e)" and t: "is_timeout e"
        by auto
      then show ?thesis
        using Inr False rest [of "(p', snd st @ [WaitFor ?loc (timeout div int (length success_patterns))])"]
        by (simp add: Let_def run_cmd_def)
    qed
  qed
qed

text \<open>When the last \<open>try\<close> sees none of its three signs: the pause or a query raised,
  or inputs and a submit button are still there and the first-name field is missing
  or still holds a value.\<close>

lemma fallback_checks_silent:
  "fst (fallback_checks pg st) = None \<longleftrightarrow>
     (case pw_exec pg (WaitForTimeout 3000) (fst st) of
        (p', Some e) \<Rightarrow> True
      | (p', None) \<Rightarrow>
          (case pw_count pg p' (Css ''input, textarea'') of
             Inl e \<Rightarrow> True
           | Inr form_fields \<Rightarrow> form_fields \<noteq> 0 \<and>
               (case pw_count pg p' (Css submit_css) of
                  Inl e \<Rightarrow> True
                | Inr submit_buttons \<Rightarrow> submit_buttons \<noteq> 0 \<and>
                    (case pw_count pg p' (XPathFirst first_name_xpath) of
                       Inl e \<Rightarrow> True
                     | Inr n \<Rightarrow> n = 0 \<or>
                         (case pw_input_value pg p' (XPathFirst first_name_xpath) of
                            Inl e \<Rightarrow> True
                          | Inr v \<Rightarrow> v \<noteq> [])))))"
  by (auto simp: fallback_checks_def run_cmd_def split: prod.splits option.splits sum.splits)

text \<open>When a URL part is configured and the selector, if any, timed out, the URL alone
  decides: success if it contains the part, otherwise a timeout error is raised.\<close>

lemma wait_for_success_url:
  assumes "truthy_id (success_url_contains cfg)"
    and "\<not> truthy_id (success_selector cfg)"
  shows "wait_for_success pg cfg timeout st =
     (if py_contains (the (success_url_contains cfg)) (pw_url pg (fst st)) then (Inr [], st)
      else (Inl (PlaywrightTimeoutError
                   (''Expected URL to contain '' @ [sq] @ the (success_url_contains cfg)
                      @ [sq] @ '', got: '' @ pw_url pg (fst st))), st))"
  using assms by (simp add: wait_for_success_def Let_def)



text \<open>
  Claim C3 as the specification words it does not hold. On a page where nothing
  signals success, \<open>wait_for_success\<close> raises a timeout error when a URL part is
  configured and the URL does not contain it; and an error other than a timeout raised
  while the text patterns are looked for leaves the function.
\<close>

theorem wait_for_success_raises:
  "fst (wait_for_success silent_page
          \<lparr>success_selector = None, success_url_contains = Some ''thanks''\<rparr> 10000 ((), []))
     = Inl (PlaywrightTimeoutError
              (''Expected URL to contain '' @ [sq] @ ''thanks'' @ [sq]
                 @ '', got: https://airtable.com/form'')) \<and>
   fst (wait_for_success closed_page
          \<lparr>success_selector = None, success_url_contains = None\<rparr> 10000 ((), []))
     = Inl (PlaywrightError ''Target closed'')"
  by code_simp

text \<open>
  Claim C3, as the code has it. When no URL part is configured, the wait for the
  configured selector, if any, times out, every text pattern is absent, or counting
  it or waiting for it times out, and the last heuristics see none of their three
  signs, then \<open>wait_for_success\<close> returns normally, after printing the warning that no
  clear confirmation was detected.
\<close>

theorem wait_for_success_unknown:
  assumes url: "\<not> truthy_id (success_url_contains cfg)"
    and sel: "truthy_id (success_selector cfg) \<longrightarrow>
        (\<forall>p. \<exists>p' e. pw_exec pg (WaitForSelector (the (success_selector cfg)) timeout) p
                       = (p', Some e) \<and> is_timeout e)"
    and pat: "\<forall>pattern \<in> set success_patterns. \<forall>p.
        (case pw_count pg p (TextPatternFirst (''text=/'' @ pattern @ ''/i'')) of
           Inl e \<Rightarrow> is_timeout e
         | Inr n \<Rightarrow> n = 0 \<or>
             (\<exists>p' e. pw_exec pg (WaitFor (TextPatternFirst (''text=/'' @ pattern @ ''/i''))
                           (timeout div int (length success_patterns))) p = (p', Some e)
                     \<and> is_timeout e))"
    and heur: "\<forall>s. fst (fallback_checks pg s) = None"
  shows "\<exists>st'. wait_for_success pg cfg timeout st = (Inr unknown_warning, st')"
proof -
  have tail: "\<exists>st'. (case scan_patterns pg timeout success_patterns s of
               (Inl e, st2) \<Rightarrow> (Inl e, st2)
             | (Inr True, st2) \<Rightarrow> (Inr [], st2)
             | (Inr False, st2) \<Rightarrow>
                 (case fallback_checks pg st2 of
                    (Some line, st3) \<Rightarrow> (Inr [line], st3)
                  | (None, st3) \<Rightarrow> (Inr unknown_warning, st3))) = (Inr unknown_warning, st')" for s
  proof -
    obtain s2 where s2: "scan_patterns pg timeout success_patterns s = (Inr False, s2)"
      using scan_patterns_silent [OF pat] by blast
    obtain s3 where s3: "fallback_checks pg s2 = (None, s3)"
      using heur [rule_format, of s2] by (cases "fallback_checks pg s2") simp
    show ?thesis
      by (simp add: s2 s3)
  qed
  show ?thesis
  proof (cases "truthy_id (success_selector cfg)")
    case False
    then show ?thesis
      using url tail [of st] by (simp add: wait_for_success_def)
  next
    case True
    with sel obtain p' e where
      w: "pw_exec pg (WaitForSelector (the (success_selector cfg)) timeout) (fst st)
            = (p', Some e)" and t: "is_timeout e"
      by blast
    show ?thesis
      using True url w t
        tail [of "(p', snd st @ [WaitForSelector (the (success_selector cfg)) timeout])"]
      by (simp add: wait_for_success_def run_cmd_def)
  qed
qed

text \<open>The theorem on a page where the configured selector never appears.\<close>

theorem wait_for_success_unknown_witness:
  "fst (wait_for_success silent_page
          \<lparr>success_selector = Some ''#done'', success_url_contains = None\<rparr> 10000 ((), []))
     = Inr unknown_warning"
proof -
  let ?cfg = "\<lparr>success_selector = Some ''#done'', success_url_contains = None\<rparr>"
  have url: "\<not> truthy_id (success_url_contains ?cfg)"
    by (simp add: truthy_id_def)
  have sel: "truthy_id (success_selector ?cfg) \<longrightarrow>
        (\<forall>p. \<exists>p' e. pw_exec silent_page (WaitForSelector (the (success_selector ?cfg)) 10000) p
                       = (p', Some e) \<and> is_timeout e)"
    by (simp add: silent_page_def)
  have pat: "\<forall>pattern \<in> set success_patterns. \<forall>p.
        (case pw_count silent_page p (TextPatternFirst (''text=/'' @ pattern @ ''/i'')) of
           Inl e \<Rightarrow> is_timeout e
         | Inr n \<Rightarrow> n = 0 \<or>
             (\<exists>p' e. pw_exec silent_page (WaitFor (TextPatternFirst (''text=/'' @ pattern @ ''/i''))
                           (10000 div int (length success_patterns))) p = (p', Some e)
                     \<and> is_timeout e))"
    by (simp add: silent_page_def)
  have heur: "\<forall>s. fst (fallback_checks silent_page s) = None"
    by (simp add: fallback_checks_def run_cmd_def silent_page_def)
  from wait_for_success_unknown [OF url sel pat heur, of "((), [])"]
  show ?thesis
    by auto
qed

section \<open>Properties of the checkbox loop\<close>

lemma check_options_clicks:
  assumes "check_options drv q opts success (p, log) = (r, (p', log'))"
  shows "\<exists>new. log' = log @ new \<and> clicks_unchecked_only drv p new \<and> p' = page_after drv p new"
  using assms
proof (induction opts arbitrary: success p log)
  case Nil
  then show ?case by simp
next
  case (Cons raw rest)
  show ?case
  proof (cases "py_strip raw = []")
    case True
    then show ?thesis using Cons by (simp add: Let_def)
  next
    case False
    show ?thesis
    proof (cases "locate_checkbox drv p q (py_strip raw)")
      case None
      then show ?thesis using False Cons by (simp add: Let_def)
    next
      case (Some el)
      show ?thesis
      proof (cases "get_attribute drv p el ''aria-checked'' = Some ''true''")
        case True
        then show ?thesis using False Some Cons by (simp add: Let_def)
      next
        case notyet: False
        obtain p1 x where ex: "wd_exec drv (ClickEl el) p = (p1, x)"
          by (cases "wd_exec drv (ClickEl el) p")
        show ?thesis
        proof (cases x)
          case None
          then have "check_options drv q rest success (p1, log @ [ClickEl el]) = (r, (p', log'))"
            using False Some notyet ex Cons.prems by (simp add: Let_def wd_run_def)
          from Cons.IH [OF this] obtain new where
            new: "log' = (log @ [ClickEl el]) @ new" "clicks_unchecked_only drv p1 new"
              "p' = page_after drv p1 new"
            by blast
          then show ?thesis
            using notyet ex by (intro exI [of _ "ClickEl el # new"]) simp
        next
          case (Some e)
          then have "p' = p1" "log' = log @ [ClickEl el]"
            using False \<open>locate_checkbox drv p q (py_strip raw) = Some el\<close> notyet ex Cons.prems
            by (simp_all add: Let_def wd_run_def)
          then show ?thesis
            using notyet ex by (intro exI [of _ "[ClickEl el]"]) simp
        qed
      qed
    qed
  qed
qed

lemma check_options_all_checked:
  assumes "\<forall>raw \<in> set opts. py_strip raw \<noteq> [] \<longrightarrow>
             (\<forall>el. locate_checkbox drv p q (py_strip raw) = Some el
                \<longrightarrow> get_attribute drv p el ''aria-checked'' = Some ''true'')"
  shows "check_options drv q opts success (p, log) =
           (Inr (success \<and> (\<forall>raw \<in> set opts. py_strip raw \<noteq> []
                               \<longrightarrow> locate_checkbox drv p q (py_strip raw) \<noteq> None)), (p, log))"
  using assms
proof (induction opts arbitrary: success)
  case Nil
  then show ?case by simp
next
  case (Cons raw rest)
  then show ?case
    by (cases "locate_checkbox drv p q (py_strip raw)") (auto simp: Let_def)
qed

lemma locate_checkbox_cong:
  assumes "find_elements drv p' = find_elements drv p" and "find_within drv p' = find_within drv p"
  shows "locate_checkbox drv p' q opt = locate_checkbox drv p q opt"
proof -
  have fw: "first_within drv p' cs xp = first_within drv p cs xp" for cs xp
    by (induction cs) (auto simp: assms split: list.splits)
  show ?thesis
    unfolding locate_checkbox_def find_in_question_container_def find_element_def assms fw
    by (rule refl)
qed

text \<open>In a browser where a click on an unchecked control does not fail, leaves what the
  XPaths find as it is, checks the control and unchecks no other, a run of the loop
  ends with every control it found checked.\<close>

lemma check_options_checks:
  assumes click: "\<And>s el. get_attribute drv s el ''aria-checked'' \<noteq> Some ''true'' \<Longrightarrow>
        snd (wd_exec drv (ClickEl el) s) = None
        \<and> find_elements drv (fst (wd_exec drv (ClickEl el) s)) = find_elements drv s
        \<and> find_within drv (fst (wd_exec drv (ClickEl el) s)) = find_within drv s
        \<and> get_attribute drv (fst (wd_exec drv (ClickEl el) s)) el ''aria-checked'' = Some ''true''
        \<and> (\<forall>el'. get_attribute drv s el' ''aria-checked'' = Some ''true''
               \<longrightarrow> get_attribute drv (fst (wd_exec drv (ClickEl el) s)) el' ''aria-checked'' = Some ''true'')"
    and run: "check_options drv q opts success (p, log) = (r, (p', log'))"
  shows "find_elements drv p' = find_elements drv p \<and> find_within drv p' = find_within drv p
       \<and> (\<forall>el. get_attribute drv p el ''aria-checked'' = Some ''true''
              \<longrightarrow> get_attribute drv p' el ''aria-checked'' = Some ''true'')
       \<and> (\<forall>raw \<in> set opts. py_strip raw \<noteq> [] \<longrightarrow>
              (\<forall>el. locate_checkbox drv p q (py_strip raw) = Some el
                 \<longrightarrow> get_attribute drv p' el ''aria-checked'' = Some ''true''))
       \<and> r = Inr (success \<and> (\<forall>raw \<in> set opts. py_strip raw \<noteq> []
                               \<longrightarrow> locate_checkbox drv p q (py_strip raw) \<noteq> None))"
  using run
proof (induction opts arbitrary: success p log)
  case Nil
  then show ?case by simp
next
  case (Cons raw rest)
  show ?case
  proof (cases "py_strip raw = []")
    case True
    then have "check_options drv q rest success (p, log) = (r, (p', log'))"
      using Cons.prems by (simp add: Let_def)
    from Cons.IH [OF this] show ?thesis
      using True by auto
  next
    case False
    show ?thesis
    proof (cases "locate_checkbox drv p q (py_strip raw)")
      case None
      then have "check_options drv q rest False (p, log) = (r, (p', log'))"
        using False Cons.prems by (simp add: Let_def)
      from Cons.IH [OF this] show ?thesis
        using False None by auto
    next
      case (Some el)
      show ?thesis
      proof (cases "get_attribute drv p el ''aria-checked'' = Some ''true''")
        case True
        then have "check_options drv q rest success (p, log) = (r, (p', log'))"
          using False Some Cons.prems by (simp add: Let_def)
        from Cons.IH [OF this] show ?thesis
          using False Some True by auto
      next
        case notyet: False
        obtain p1 x where ex: "wd_exec drv (ClickEl el) p = (p1, x)"
          by (cases "wd_exec drv (ClickEl el) p")
        note c = click [OF notyet, unfolded ex, simplified]
        have "check_options drv q rest success (p1, log @ [ClickEl el]) = (r, (p', log'))"
          using False Some notyet ex c Cons.prems by (simp add: Let_def wd_run_def)
        note ih = Cons.IH [OF this]
        have loc: "locate_checkbox drv p1 q opt = locate_checkbox drv p q opt" for opt
          using c by (intro locate_checkbox_cong) simp_all
        show ?thesis
          using ih c False Some unfolding loc by auto
      qed
    qed
  qed
qed

lemma check_options_twice:
  assumes click: "\<And>s el. get_attribute drv s el ''aria-checked'' \<noteq> Some ''true'' \<Longrightarrow>
        snd (wd_exec drv (ClickEl el) s) = None
        \<and> find_elements drv (fst (wd_exec drv (ClickEl el) s)) = find_elements drv s
        \<and> find_within drv (fst (wd_exec drv (ClickEl el) s)) = find_within drv s
        \<and> get_attribute drv (fst (wd_exec drv (ClickEl el) s)) el ''aria-checked'' = Some ''true''
        \<and> (\<forall>el'. get_attribute drv s el' ''aria-checked'' = Some ''true''
               \<longrightarrow> get_attribute drv (fst (wd_exec drv (ClickEl el) s)) el' ''aria-checked'' = Some ''true'')"
    and run: "check_options drv q opts True (p, log) = (r, (p', log'))"
  shows "check_options drv q opts True (p', log') = (r, (p', log'))"
proof -
  note f = check_options_checks [OF click run]
  have loc: "locate_checkbox drv p' q opt = locate_checkbox drv p q opt" for opt
    using f by (intro locate_checkbox_cong) simp_all
  have "\<forall>raw \<in> set opts. py_strip raw \<noteq> [] \<longrightarrow>
             (\<forall>el. locate_checkbox drv p' q (py_strip raw) = Some el
                \<longrightarrow> get_attribute drv p' el ''aria-checked'' = Some ''true'')"
    using f unfolding loc by blast
  from check_options_all_checked [OF this, of True log'] show ?thesis
    using f unfolding loc by simp
qed

text \<open>
  Claim C5. For every question label and list of option values: the commands that
  \<open>select_checkboxes\<close> sends are clicks, each on a control whose \<open>aria-checked\<close> is not
  \<open>true\<close> at the moment of the click; when every control it finds is already checked,
  it sends no click and leaves the page as it is; and in a browser where a click on an
  unchecked control checks it, unchecks no other and leaves what the XPaths find
  unchanged, a second call after a first one sends no further click, leaves the page
  unchanged and returns the same result.
\<close>

theorem select_checkboxes_idempotent:
  "(select_checkboxes drv q opts (p, log) = (r, (p', log')) \<longrightarrow>
      (\<exists>new. log' = log @ new \<and> clicks_unchecked_only drv p new \<and> p' = page_after drv p new)) \<and>
   ((\<forall>raw \<in> set opts. py_strip raw \<noteq> [] \<longrightarrow>
        (\<forall>el. locate_checkbox drv p q (py_strip raw) = Some el
           \<longrightarrow> get_attribute drv p el ''aria-checked'' = Some ''true'')) \<longrightarrow>
      (\<exists>ok. select_checkboxes drv q opts (p, log) = (Inr ok, (p, log)))) \<and>
   ((\<forall>s el. get_attribute drv s el ''aria-checked'' \<noteq> Some ''true'' \<longrightarrow>
        snd (wd_exec drv (ClickEl el) s) = None
        \<and> find_elements drv (fst (wd_exec drv (ClickEl el) s)) = find_elements drv s
        \<and> find_within drv (fst (wd_exec drv (ClickEl el) s)) = find_within drv s
        \<and> get_attribute drv (fst (wd_exec drv (ClickEl el) s)) el ''aria-checked'' = Some ''true''
        \<and> (\<forall>el'. get_attribute drv s el' ''aria-checked'' = Some ''true''
               \<longrightarrow> get_attribute drv (fst (wd_exec drv (ClickEl el) s)) el' ''aria-checked'' = Some ''true''))
      \<longrightarrow> select_checkboxes drv q opts (p, log) = (r, (p', log'))
      \<longrightarrow> select_checkboxes drv q opts (p', log') = (r, (p', log')))"
proof (intro conjI impI)
  assume "select_checkboxes drv q opts (p, log) = (r, (p', log'))"
  then show "\<exists>new. log' = log @ new \<and> clicks_unchecked_only drv p new \<and> p' = page_after drv p new"
    unfolding select_checkboxes_def by (rule check_options_clicks)
next
  assume "\<forall>raw \<in> set opts. py_strip raw \<noteq> [] \<longrightarrow>
        (\<forall>el. locate_checkbox drv p q (py_strip raw) = Some el
           \<longrightarrow> get_attribute drv p el ''aria-checked'' = Some ''true'')"
  from check_options_all_checked [OF this, of True log]
  show "\<exists>ok. select_checkboxes drv q opts (p, log) = (Inr ok, (p, log))"
    unfolding select_checkboxes_def by blast
next
  assume click: "\<forall>s el. get_attribute drv s el ''aria-checked'' \<noteq> Some ''true'' \<longrightarrow>
        snd (wd_exec drv (ClickEl el) s) = None
        \<and> find_elements drv (fst (wd_exec drv (ClickEl el) s)) = find_elements drv s
        \<and> find_within drv (fst (wd_exec drv (ClickEl el) s)) = find_within drv s
        \<and> get_attribute drv (fst (wd_exec drv (ClickEl el) s)) el ''aria-checked'' = Some ''true''
        \<and> (\<forall>el'. get_attribute drv s el' ''aria-checked'' = Some ''true''
               \<longrightarrow> get_attribute drv (fst (wd_exec drv (ClickEl el) s)) el' ''aria-checked'' = Some ''true'')"
    and run: "select_checkboxes drv q opts (p, log) = (r, (p', log'))"
  show "select_checkboxes drv q opts (p', log') = (r, (p', log'))"
    unfolding select_checkboxes_def
    by (rule check_options_twice [OF click [rule_format] run [unfolded select_checkboxes_def]])
qed

text \<open>The small page with two controls satisfies the condition on clicks.\<close>

lemma toy_driver_click:
  "get_attribute toy_driver s el ''aria-checked'' \<noteq> Some ''true'' \<longrightarrow>
        snd (wd_exec toy_driver (ClickEl el) s) = None
        \<and> find_elements toy_driver (fst (wd_exec toy_driver (ClickEl el) s)) = find_elements toy_driver s
        \<and> find_within toy_driver (fst (wd_exec toy_driver (ClickEl el) s)) = find_within toy_driver s
        \<and> get_attribute toy_driver (fst (wd_exec toy_driver (ClickEl el) s)) el ''aria-checked'' = Some ''true''
        \<and> (\<forall>el'. get_attribute toy_driver s el' ''aria-checked'' = Some ''true''
               \<longrightarrow> get_attribute toy_driver (fst (wd_exec toy_driver (ClickEl el) s)) el' ''aria-checked'' = Some ''true'')"
  by (auto simp: toy_driver_def)

lemma toy_driver_first_run:
  "select_checkboxes toy_driver ''Colours'' [''Red'', '' Blue '', '' ''] ([], [])
     = (Inr True, ([2, 1], [ClickEl 1, ClickEl 2]))"
  by code_simp

text \<open>The theorem on the small page: the first call clicks both controls, the second
  call clicks nothing.\<close>

theorem select_checkboxes_idempotent_witness:
  "select_checkboxes toy_driver ''Colours'' [''Red'', '' Blue '', '' ''] ([], [])
     = (Inr True, ([2, 1], [ClickEl 1, ClickEl 2])) \<and>
   clicks_unchecked_only toy_driver [] [ClickEl 1, ClickEl 2] \<and>
   select_checkboxes toy_driver ''Colours'' [''Red'', '' Blue '', '' ''] ([2, 1], [ClickEl 1, ClickEl 2])
     = (Inr True, ([2, 1], [ClickEl 1, ClickEl 2]))"
proof -
  note t = select_checkboxes_idempotent [of toy_driver "''Colours''" "[''Red'', '' Blue '', '' '']"
      "[]" "[]" "Inr True" "[2, 1]" "[ClickEl 1, ClickEl 2]"]
  have click: "\<forall>s el. get_attribute toy_driver s el ''aria-checked'' \<noteq> Some ''true'' \<longrightarrow>
        snd (wd_exec toy_driver (ClickEl el) s) = None
        \<and> find_elements toy_driver (fst (wd_exec toy_driver (ClickEl el) s)) = find_elements toy_driver s
        \<and> find_within toy_driver (fst (wd_exec toy_driver (ClickEl el) s)) = find_within toy_driver s
        \<and> get_attribute toy_driver (fst (wd_exec toy_driver (ClickEl el) s)) el ''aria-checked'' = Some ''true''
        \<and> (\<forall>el'. get_attribute toy_driver s el' ''aria-checked'' = Some ''true''
               \<longrightarrow> get_attribute toy_driver (fst (wd_exec toy_driver (ClickEl el) s)) el' ''aria-checked'' = Some ''true'')"
    using toy_driver_click by blast
  have twice: "select_checkboxes toy_driver ''Colours'' [''Red'', '' Blue '', '' '']
        ([2, 1], [ClickEl 1, ClickEl 2]) = (Inr True, ([2, 1], [ClickEl 1, ClickEl 2]))"
    using t [THEN conjunct2, THEN conjunct2, THEN mp, OF click, THEN mp, OF toy_driver_first_run] .
  obtain new where new: "[ClickEl 1, ClickEl 2] = [] @ new" "clicks_unchecked_only toy_driver [] new"
    using t [THEN conjunct1, THEN mp, OF toy_driver_first_run] by blast
  then have "clicks_unchecked_only toy_driver [] [ClickEl 1, ClickEl 2]"
    by simp
  then show ?thesis
    using toy_driver_first_run twice by simp
qed

end
